theory Spec2Isabelle
  imports Main "HOL-Library.Word"
begin

section \<open>ffox-remote: a shallow embedding of the protocol engine\<close>

text \<open>
  The program talks to a running Firefox through X window properties: it finds the
  Firefox window (\<open>findFirefox\<close>), takes the lock property (\<open>lockFirefox\<close>),
  writes the encoded command line (\<open>encodeCommandLine\<close>, \<open>submitCommand\<close>), waits
  for the response property (\<open>getResponse\<close>) and deletes the lock
  (\<open>unlockFirefox\<close>).  The definitions below follow the Go functions of the
  current source one by one and keep their names.

  Go's \<open>string\<close> and \<open>[]byte\<close> are both sequences of bytes; an Isabelle
  \<open>char\<close> is one byte, so both are modelled as \<open>char list\<close> and the
  conversions \<open>[]byte(s)\<close> and \<open>string(b)\<close> are the identity.  \<open>uint32\<close> is
  \<open>32 word\<close>; Go's \<open>int\<close> (lengths and the running offset) is \<open>nat\<close>: it has
  64 bits on the platforms where a buffer can reach \<open>2 ^ 32\<close> bytes, and no length
  overflows it.  The conversion \<open>uint32(n)\<close> is \<open>of_nat\<close>, which truncates modulo
  \<open>2 ^ 32\<close>.
\<close>

type_synonym u32 = "32 word"
type_synonym bytes = string

definition NUL :: char where
  "NUL = CHR 0x00"

section \<open>The command line encoder\<close>

text \<open>
  \<open>addArgStr\<close> writes \<open>s\<close> and one zero byte to the buffer \<open>w\<close> and returns the
  number of bytes written.  The writer is a \<open>bytes.Buffer\<close>, whose \<open>Write\<close> returns
  \<open>len(p), nil\<close>, so the two \<open>log.Fatal\<close> branches are never taken.
\<close>

definition addArgStr :: "bytes \<Rightarrow> string \<Rightarrow> bytes \<times> nat" where
  "addArgStr w s = (w @ s @ [NUL], length s + 1)"

text \<open>
  The loop \<open>for i := range args\<close> of \<open>encodeCommandLine\<close>: \<open>i\<close> is the index of
  the head of the remaining arguments, \<open>arr\<close> the offset array, \<open>arenc\<close> the argument
  buffer and \<open>off\<close> the running offset.
\<close>

fun encodeArgs :: "string list \<Rightarrow> nat \<Rightarrow> u32 list \<Rightarrow> bytes \<Rightarrow> nat \<Rightarrow> u32 list \<times> bytes" where
  "encodeArgs [] i arr arenc off = (arr, arenc)"
| "encodeArgs (a # as) i arr arenc off =
     (let (arenc', n) = addArgStr arenc a
      in encodeArgs as (i + 1) (arr[i + 1 := of_nat off]) arenc' (off + n))"

text \<open>\<open>binary.LittleEndian.PutUint32\<close>: the four bytes of \<open>v\<close>, lowest first.\<close>

definition putUint32 :: "u32 \<Rightarrow> bytes" where
  "putUint32 v = [char_of (unat v), char_of (unat (drop_bit 8 v)),
                  char_of (unat (drop_bit 16 v)), char_of (unat (drop_bit 24 v))]"

text \<open>\<open>binary.Write(buf, binary.LittleEndian, arr)\<close> for a slice of \<open>uint32\<close>.\<close>

definition binaryWrite :: "u32 list \<Rightarrow> bytes" where
  "binaryWrite arr = concat (map putUint32 arr)"

definition encodeCommandLine :: "string \<Rightarrow> string list \<Rightarrow> bytes" where
  "encodeCommandLine pwd args =
     (let arr = (replicate (length args + 1) 0)[0 := of_nat (length args)];
          off = length arr * 4;
          (arenc, n) = addArgStr [] pwd;
          (arr', arenc') = encodeArgs args 0 arr arenc (off + n)
      in binaryWrite arr' @ arenc')"

subsection \<open>The documented layout, read back\<close>

text \<open>
  The consumer's side of the format, written from its description
  (the array \<open>argc, offset of argv[0], offset of argv[1], ...\<close>, then the working
  directory and each argument, every string closed by a zero byte; offsets count from
  the beginning of the buffer, integers are little-endian).  \<open>headerAt buf k\<close> is the
  \<open>k\<close>-th 32-bit integer of the buffer, \<open>regionAt buf off s\<close> says that \<open>s\<close> followed
  by a zero byte stands at byte offset \<open>off\<close>, \<open>cstringAt buf off\<close> is the
  zero-terminated string that starts at \<open>off\<close>, and \<open>decodeCommandLine\<close> reads
  \<open>argc\<close> and then the string each offset points at.
\<close>

definition uint32LE :: "char \<Rightarrow> char \<Rightarrow> char \<Rightarrow> char \<Rightarrow> u32" where
  "uint32LE b0 b1 b2 b3 =
     of_nat (of_char b0 + 256 * of_char b1 + 65536 * of_char b2 + 16777216 * of_char b3)"

definition headerAt :: "bytes \<Rightarrow> nat \<Rightarrow> u32 option" where
  "headerAt buf k =
     (case take 4 (drop (4 * k) buf) of
        [b0, b1, b2, b3] \<Rightarrow> Some (uint32LE b0 b1 b2 b3)
      | _ \<Rightarrow> None)"

definition regionAt :: "bytes \<Rightarrow> nat \<Rightarrow> string \<Rightarrow> bool" where
  "regionAt buf off s = (take (length s + 1) (drop off buf) = s @ [NUL])"

definition cstringAt :: "bytes \<Rightarrow> nat \<Rightarrow> string option" where
  "cstringAt buf off =
     (if NUL \<in> set (drop off buf)
      then Some (takeWhile (\<lambda>c. c \<noteq> NUL) (drop off buf)) else None)"

fun decodeArgv :: "bytes \<Rightarrow> nat list \<Rightarrow> string list option" where
  "decodeArgv buf [] = Some []"
| "decodeArgv buf (k # ks) =
     (case headerAt buf k of
        None \<Rightarrow> None
      | Some off \<Rightarrow>
          (case cstringAt buf (unat off) of
             None \<Rightarrow> None
           | Some s \<Rightarrow>
               (case decodeArgv buf ks of
                  None \<Rightarrow> None
                | Some ss \<Rightarrow> Some (s # ss))))"

definition decodeCommandLine :: "bytes \<Rightarrow> string list option" where
  "decodeCommandLine buf =
     (case headerAt buf 0 of
        None \<Rightarrow> None
      | Some argc \<Rightarrow> decodeArgv buf [1..<Suc (unat argc)])"

text \<open>
  Two auxiliary functions for the proofs: the offsets the loop stores, without the
  truncation to 32 bits, and the string table it builds.
\<close>

fun offsets :: "nat \<Rightarrow> string list \<Rightarrow> nat list" where
  "offsets off [] = []"
| "offsets off (a # as) = off # offsets (off + length a + 1) as"

definition strtab :: "string list \<Rightarrow> bytes" where
  "strtab as = concat (map (\<lambda>a. a @ [NUL]) as)"

text \<open>A working directory of \<open>2 ^ 32 - 9\<close> bytes, for the 32-bit wrap-around.\<close>

definition hugePwd :: string where
  "hugePwd = replicate 4294967287 (CHR ''a'')"

section \<open>The X server as the program sees it\<close>

text \<open>
  Modelled from the spec: the property accessor (a read that can find nothing, a
  write that can fail, a deletion that never fails, grab and ungrab) and the source
  of the events, which the X libraries (\<open>xgb\<close>, \<open>xgbutil\<close>) provide outside the
  repository.  The model keeps what the program uses of them.  A window is a 32-bit identifier
  (\<open>xproto.Window\<close>), an atom is the interned name of a property.  The server holds,
  for every window, whether it exists, its children (the reply of \<open>QueryTree\<close>) and
  its properties.  A property that is set can hold the empty value, which is not the
  same as a property that is not set: \<open>xprop.GetProperty\<close> returns an error for the
  latter only.

  \<open>rejects\<close> is a parameter of the server: the property writes it answers with an
  error although the window exists (\<open>BadAlloc\<close>, for one).  \<open>selected\<close> holds the
  windows whose events the program has asked for with \<open>Listen\<close>; \<open>evqueue\<close> the
  events delivered to the program and not dispatched yet; \<open>quitting\<close> the quit flag
  of the connection, which \<open>xevent.Quit\<close> sets and nothing clears; \<open>others\<close> the
  requests of the other clients (Firefox among them) that reach the server while the
  program blocks in its event loop, one batch for each time the loop blocks;
  \<open>reqs\<close> the state-changing and synchronising requests the program has sent, in
  order.  Reads leave the server as it is and are not recorded, but for the read of
  the lock property, whose place inside the grab is part of the protocol.

  The other clients act only while the program blocks in a wait.  Between two
  requests of one attempt on the lock nothing else happens, which is what the server
  grab is there for.  The property names are the defaults of the source; the
  rewriting of their prefix by the \<open>-pref\<close> flag is left out.
\<close>

type_synonym window = "32 word"
type_synonym atom = string

datatype propstate = PropertyNewValue | PropertyDelete

record propertyNotifyEvent =
  evWindow :: window
  evAtom :: atom
  evState :: propstate

datatype xevent =
    PropertyNotify propertyNotifyEvent
  | DestroyNotify window

datatype envstep =
    OtherChange window string bytes
  | OtherDelete window string
  | OtherDestroy window

datatype xreq =
    GrabServer
  | UngrabServer
  | SyncReq
  | SelectInput window
  | GetPropertyReq window string
  | ChangeProperty window string bytes
  | DeleteProperty window atom

record xserver =
  rootWin :: window
  alive :: "window \<Rightarrow> bool"
  children :: "window \<Rightarrow> window list"
  props :: "window \<Rightarrow> string \<Rightarrow> bytes option"
  rejects :: "window \<Rightarrow> string \<Rightarrow> bool"
  selected :: "window \<Rightarrow> bool"
  evqueue :: "xevent list"
  quitting :: bool
  others :: "envstep list list"
  reqs :: "xreq list"

text \<open>
  How a call ends: it returns a value, the process exits through \<open>log.Fatal\<close>, it
  panics, or it blocks forever in the event loop.  The functions that only read the
  server return \<open>fault + 'a\<close>.
\<close>

datatype fault = FatalExit string | RuntimePanic string

datatype 'a result =
    Return 'a xserver
  | Fatal string xserver
  | Panic string
  | Blocked xserver

subsection \<open>The property names\<close>

definition lockProp :: string where "lockProp = ''_MOZILLA_LOCK''"
definition cmdlProp :: string where "cmdlProp = ''_MOZILLA_COMMANDLINE''"
definition respProp :: string where "respProp = ''_MOZILLA_RESPONSE''"
definition versProp :: string where "versProp = ''_MOZILLA_VERSION''"
definition userProp :: string where "userProp = ''_MOZILLA_USER''"
definition profProp :: string where "profProp = ''_MOZILLA_PROFILE''"
definition progProp :: string where "progProp = ''_MOZILLA_PROGRAM''"

definition firefoxVersion :: string where "firefoxVersion = ''5.1''"

text \<open>\<open>getAtoms\<close>: the atoms of the lock and of the response property.\<close>

definition lockatom :: atom where "lockatom = lockProp"
definition responseatom :: atom where "responseatom = respProp"

subsection \<open>Requests\<close>

text \<open>
  \<open>xprop.GetProperty\<close>: \<open>None\<close> is the error (no such window, or the property is
  not set).  \<open>xproto.QueryTree\<close>: \<open>None\<close> is the error.
\<close>

definition GetProperty :: "xserver \<Rightarrow> window \<Rightarrow> string \<Rightarrow> bytes option" where
  "GetProperty X w p = (if alive X w then props X w p else None)"

definition QueryTree :: "xserver \<Rightarrow> window \<Rightarrow> window list option" where
  "QueryTree X w = (if alive X w then Some (children X w) else None)"

text \<open>The server sends an event about a window to the program if it listens there.\<close>

definition deliver :: "window \<Rightarrow> xevent \<Rightarrow> xserver \<Rightarrow> xserver" where
  "deliver w ev X = (if selected X w then X\<lparr>evqueue := evqueue X @ [ev]\<rparr> else X)"

definition setProp :: "window \<Rightarrow> string \<Rightarrow> bytes \<Rightarrow> xserver \<Rightarrow> xserver" where
  "setProp w p v X =
     deliver w (PropertyNotify \<lparr>evWindow = w, evAtom = p, evState = PropertyNewValue\<rparr>)
       (X\<lparr>props := (props X)(w := (props X w)(p \<mapsto> v))\<rparr>)"

definition delProp :: "window \<Rightarrow> string \<Rightarrow> xserver \<Rightarrow> xserver" where
  "delProp w p X =
     (if alive X w \<and> props X w p \<noteq> None
      then deliver w (PropertyNotify \<lparr>evWindow = w, evAtom = p, evState = PropertyDelete\<rparr>)
             (X\<lparr>props := (props X)(w := (props X w)(p := None))\<rparr>)
      else X)"

definition sent :: "xreq \<Rightarrow> xserver \<Rightarrow> xserver" where
  "sent r X = X\<lparr>reqs := reqs X @ [r]\<rparr>"

text \<open>
  \<open>xprop.ChangeProp\<close> (a checked request): the flag is \<open>e == nil\<close>.
  \<open>xproto.DeleteProperty\<close> (unchecked, its error is dropped).  \<open>w.Listen\<close>: the
  flag is \<open>e == nil\<close>.
\<close>

definition ChangeProp :: "xserver \<Rightarrow> window \<Rightarrow> string \<Rightarrow> bytes \<Rightarrow> bool \<times> xserver" where
  "ChangeProp X w p v =
     (if alive X w \<and> \<not> rejects X w p
      then (True, setProp w p v (sent (ChangeProperty w p v) X))
      else (False, sent (ChangeProperty w p v) X))"

definition DeletePropertyReq :: "xserver \<Rightarrow> window \<Rightarrow> atom \<Rightarrow> xserver" where
  "DeletePropertyReq X w a = delProp w a (sent (DeleteProperty w a) X)"

text \<open>
  The read of the lock property, recorded among the requests.  \<open>xevent.Quit\<close> sets
  the quit flag.
\<close>

definition GetPropertyRecorded :: "xserver \<Rightarrow> window \<Rightarrow> string \<Rightarrow> bytes option \<times> xserver" where
  "GetPropertyRecorded X w p = (GetProperty X w p, sent (GetPropertyReq w p) X)"

definition Quit :: "xserver \<Rightarrow> xserver" where
  "Quit X = X\<lparr>quitting := True\<rparr>"

definition Grab :: "xserver \<Rightarrow> xserver" where "Grab X = sent GrabServer X"
definition Ungrab :: "xserver \<Rightarrow> xserver" where "Ungrab X = sent UngrabServer X"
definition Sync :: "xserver \<Rightarrow> xserver" where "Sync X = sent SyncReq X"

definition Listen :: "xserver \<Rightarrow> window \<Rightarrow> bool \<times> xserver" where
  "Listen X w =
     (if alive X w
      then (True, (sent (SelectInput w) X)\<lparr>selected := (selected X)(w := True)\<rparr>)
      else (False, sent (SelectInput w) X))"

subsection \<open>The other clients\<close>

text \<open>
  One request of another client: it sets or deletes a property, or destroys a window
  (the window's properties go with it).
\<close>

fun envStep :: "xserver \<Rightarrow> envstep \<Rightarrow> xserver" where
  "envStep X (OtherChange w p v) = (if alive X w then setProp w p v X else X)"
| "envStep X (OtherDelete w p) = delProp w p X"
| "envStep X (OtherDestroy w) =
     (if alive X w
      then deliver w (DestroyNotify w)
             (X\<lparr>alive := (alive X)(w := False), props := (props X)(w := Map.empty)\<rparr>)
      else X)"

section \<open>Finding the Firefox window\<close>

text \<open>
  \<open>ClientWindow\<close>: the first child of \<open>win\<close> that has \<open>WM_STATE\<close> set, or \<open>win\<close>
  itself; \<open>log.Fatal\<close> when \<open>QueryTree\<close> fails.
\<close>

definition ClientWindow :: "xserver \<Rightarrow> window \<Rightarrow> fault + window" where
  "ClientWindow X win =
     (case QueryTree X win of
        None \<Rightarrow> Inl (FatalExit ''c_w:'')
      | Some cs \<Rightarrow>
          (case find (\<lambda>c. GetProperty X c ''WM_STATE'' \<noteq> None) cs of
             Some c \<Rightarrow> Inr c
           | None \<Rightarrow> Inr win))"

definition propMatch :: "xserver \<Rightarrow> window \<Rightarrow> string \<Rightarrow> string \<Rightarrow> bool" where
  "propMatch X win prop val =
     (case GetProperty X win prop of
        None \<Rightarrow> False
      | Some pv \<Rightarrow> val = [] \<or> pv = val)"

text \<open>\<open>strings.HasSuffix\<close>.\<close>

definition HasSuffix :: "string \<Rightarrow> string \<Rightarrow> bool" where
  "HasSuffix s suffix =
     (length suffix \<le> length s \<and> drop (length s - length suffix) s = suffix)"

text \<open>
  \<open>profileMatch\<close>.  The condition \<open>sv[0] == '/' && val[0] != '/' && HasSuffix(...)\<close>
  is evaluated from the left: \<open>sv[0]\<close> first, which panics on the empty string, then
  \<open>val[0]\<close>, then the suffix test.
\<close>

definition profileMatch :: "xserver \<Rightarrow> window \<Rightarrow> string \<Rightarrow> string \<Rightarrow> fault + bool" where
  "profileMatch X win prop val =
     (case GetProperty X win prop of
        None \<Rightarrow> Inr False
      | Some sv \<Rightarrow>
          if val = [] \<or> sv = val then Inr True
          else (case sv of
                  [] \<Rightarrow> Inl (RuntimePanic ''index out of range [0] with length 0'')
                | c # _ \<Rightarrow>
                    if c = CHR ''/'' then
                      (case val of
                         [] \<Rightarrow> Inl (RuntimePanic ''index out of range [0] with length 0'')
                       | d # _ \<Rightarrow>
                           if d \<noteq> CHR ''/'' then
                             (if HasSuffix sv (''.'' @ val) then Inr True else Inr False)
                           else Inr False)
                    else Inr False))"

text \<open>
  The loop of \<open>findFirefox\<close> over the children of the root window, with the variable
  \<open>wrongver\<close>.  It ends with \<open>Some win\<close> at the \<open>return win\<close> inside the loop, and
  with \<open>None\<close> and the last value of \<open>wrongver\<close> when the children are exhausted.
\<close>

fun findLoop :: "xserver \<Rightarrow> string \<Rightarrow> string \<Rightarrow> string \<Rightarrow> window list \<Rightarrow> string
                 \<Rightarrow> fault + (window option \<times> string)" where
  "findLoop X user profile program [] wrongver = Inr (None, wrongver)"
| "findLoop X user profile program (c # cs) wrongver =
     (case ClientWindow X c of
        Inl f \<Rightarrow> Inl f
      | Inr win \<Rightarrow>
          (case GetProperty X win versProp of
             None \<Rightarrow> findLoop X user profile program cs wrongver
           | Some pv \<Rightarrow>
               if pv \<noteq> firefoxVersion then findLoop X user profile program cs pv
               else if \<not> propMatch X win userProp user
                 then findLoop X user profile program cs wrongver
               else (case profileMatch X win profProp profile of
                       Inl f \<Rightarrow> Inl f
                     | Inr m \<Rightarrow>
                         if m \<and> propMatch X win progProp program
                         then Inr (Some win, wrongver)
                         else findLoop X user profile program cs wrongver)))"

definition wrongVersionWarning :: "string \<Rightarrow> string" where
  "wrongVersionWarning wrongver =
     ''found a protocol '' @ wrongver @ '' Firefox window but no '' @ firefoxVersion @ '' one.''"

text \<open>
  \<open>findFirefox\<close> returns the window (0 when none is found) and the lines it has
  written with \<open>log.Printf\<close>.
\<close>

definition findFirefox :: "xserver \<Rightarrow> string \<Rightarrow> string \<Rightarrow> string \<Rightarrow> fault + (window \<times> string list)" where
  "findFirefox X user profile program =
     (case QueryTree X (rootWin X) of
        None \<Rightarrow> Inl (FatalExit ''QueryTree'')
      | Some cs \<Rightarrow>
          (case findLoop X user profile program cs [] of
             Inl f \<Rightarrow> Inl f
           | Inr (Some win, wrongver) \<Rightarrow> Inr (win, [])
           | Inr (None, wrongver) \<Rightarrow>
               Inr (0, if wrongver \<noteq> [] then [wrongVersionWarning wrongver] else [])))"

section \<open>Waiting for a property change\<close>

text \<open>
  \<open>waitForPropChange\<close> connects a callback for \<open>PropertyNotify\<close> and one for
  \<open>DestroyNotify\<close> to \<open>win\<close> and runs the event loop of \<open>xevent.MainPing\<close> until
  one of the callbacks has set \<open>done\<close>, or the loop has pinged its quit channel.
  \<^item> The loop looks at the quit flag before it reads anything: when the flag is set it
    pings the quit channel, and the function returns the undefined event (\<open>None\<close>)
    and \<open>good = false\<close>.
  \<^item> Otherwise it dispatches the queued events one by one; when the queue is empty
    it blocks until the server has something to deliver, which is the next batch of
    the other clients' requests, and for ever when there is none.
  \<^item> The property callback drops an event for another atom; an event for another
    window reaches no callback.  Both callbacks call \<open>xevent.Quit\<close>, and so does the
    function after the loop: the quit flag is set when the function returns.
  \<^item> The events left in the queue stay there for the next wait.
\<close>

function waitForPropChange :: "xserver \<Rightarrow> window \<Rightarrow> atom
                               \<Rightarrow> (propertyNotifyEvent option \<times> bool) result" where
  "waitForPropChange X win patom =
     (if quitting X then Return (None, False) (Quit X)
      else
        (case evqueue X of
           [] \<Rightarrow>
             (case others X of
                [] \<Rightarrow> Blocked X
              | batch # rest \<Rightarrow>
                  waitForPropChange (foldl envStep (X\<lparr>others := rest\<rparr>) batch) win patom)
         | ev # q \<Rightarrow>
             (case ev of
                PropertyNotify e \<Rightarrow>
                  if evWindow e = win \<and> evAtom e = patom
                  then Return (Some e, True) (Quit (X\<lparr>evqueue := q\<rparr>))
                  else waitForPropChange (X\<lparr>evqueue := q\<rparr>) win patom
              | DestroyNotify w \<Rightarrow>
                  if w = win
                  then Return (None, False) (Quit (X\<lparr>evqueue := q\<rparr>))
                  else waitForPropChange (X\<lparr>evqueue := q\<rparr>) win patom)))"
  by pat_completeness auto

lemma others_deliver: "others (deliver w ev X) = others X"
  by (simp add: deliver_def)

lemma others_envStep: "others (envStep X s) = others X"
  by (cases s) (simp_all add: setProp_def delProp_def others_deliver)

lemma others_foldl_envStep: "others (foldl envStep X batch) = others X"
  by (induction batch arbitrary: X) (simp_all add: others_envStep)

termination waitForPropChange
  by (relation "measures [\<lambda>(X, win, patom). length (others X),
                          \<lambda>(X, win, patom). length (evqueue X)]")
     (simp_all add: others_foldl_envStep)

declare waitForPropChange.simps [simp del]

section \<open>The lock\<close>

definition lockValue :: bytes where
  "lockValue = ''ffox-remote.go on somewhere''"

definition tryLock :: "xserver \<Rightarrow> window \<Rightarrow> bool \<times> xserver" where
  "tryLock X win =
     (let X0 = Grab X;
          (p, X1) = GetPropertyRecorded X0 win lockProp;
          (success, X2) =
             (case p of
                None \<Rightarrow> ChangeProp X1 win lockProp lockValue
              | Some v \<Rightarrow>
                  if length v = 0 then ChangeProp X1 win lockProp lockValue
                  else (False, X1));
          X3 = Ungrab X2;
          X4 = Sync X3
      in (success, X4))"


text \<open>
  An attempt leaves the quit flag as it is, and a wait that ends with a property
  event started with the flag clear and ends with the flag set.
\<close>

lemma tryLock_quitting:
  "tryLock X win = (res, X1) \<Longrightarrow> quitting X1 = quitting X"
  by (auto simp: tryLock_def Let_def Grab_def Ungrab_def Sync_def sent_def ChangeProp_def
           GetPropertyRecorded_def setProp_def deliver_def
           split: option.splits if_splits prod.splits)

lemma waitForPropChange_good:
  "waitForPropChange X win patom = Return r X' \<Longrightarrow> snd r \<Longrightarrow> \<not> quitting X \<and> quitting X'"
proof (induction X win patom rule: waitForPropChange.induct)
  case (1 X win patom)
  show ?case
  proof (cases "quitting X")
    case True
    with "1.prems" show ?thesis
      by (auto simp: waitForPropChange.simps [of X])
  next
    case nq: False
    show ?thesis
    proof (cases "evqueue X")
      case Nil
      show ?thesis
      proof (cases "others X")
        case Nil: Nil
        with \<open>evqueue X = []\<close> nq "1.prems" show ?thesis
          by (simp add: waitForPropChange.simps [of X])
      next
        case (Cons batch rest)
        let ?Y = "foldl envStep (X\<lparr>others := rest\<rparr>) batch"
        have "waitForPropChange ?Y win patom = Return r X'"
          using "1.prems" nq Nil Cons by (simp add: waitForPropChange.simps [of X])
        from "1.IH"(1) [OF nq Nil Cons this "1.prems"(2)] nq show ?thesis
          by simp
      qed
    next
      case (Cons ev q)
      let ?Y = "X\<lparr>evqueue := q\<rparr>"
      show ?thesis
      proof (cases ev)
        case (PropertyNotify e)
        show ?thesis
        proof (cases "evWindow e = win \<and> evAtom e = patom")
          case True
          with "1.prems" nq Cons PropertyNotify show ?thesis
            by (auto simp: waitForPropChange.simps [of X] Quit_def)
        next
          case False
          with "1.prems" nq Cons PropertyNotify
          have "waitForPropChange ?Y win patom = Return r X'"
            by (auto simp: waitForPropChange.simps [of X])
          from "1.IH"(2) [OF nq Cons PropertyNotify False this "1.prems"(2)] nq show ?thesis
            by simp
        qed
      next
        case (DestroyNotify w)
        show ?thesis
        proof (cases "w = win")
          case True
          with "1.prems" nq Cons DestroyNotify show ?thesis
            by (auto simp: waitForPropChange.simps [of X] Quit_def)
        next
          case False
          with "1.prems" nq Cons DestroyNotify
          have "waitForPropChange ?Y win patom = Return r X'"
            by (simp add: waitForPropChange.simps [of X])
          from "1.IH"(3) [OF nq Cons DestroyNotify False this "1.prems"(2)] nq show ?thesis
            by simp
        qed
      qed
    qed
  qed
qed

text \<open>
  \<open>lockFirefox\<close>: the attempts go on until one succeeds or the wait ends without a
  property event.
\<close>

function lockFirefox :: "xserver \<Rightarrow> window \<Rightarrow> unit result" where
  "lockFirefox X win =
     (let (res, X1) = tryLock X win
      in if res then Return () X1
         else (case waitForPropChange X1 win lockatom of
                 Return r X2 \<Rightarrow>
                   if \<not> snd r then Fatal ''Firefox window disappeared'' X2
                   else lockFirefox X2 win
               | Fatal m Y \<Rightarrow> Fatal m Y
               | Panic m \<Rightarrow> Panic m
               | Blocked Y \<Rightarrow> Blocked Y))"
  by pat_completeness auto

termination lockFirefox
proof (relation "measure (\<lambda>(X, win). if quitting X then 0 else 1)")
  show "wf (measure (\<lambda>(X, win). if quitting X then 0 else (1::nat)))"
    by simp
next
  fix X win x res X1 r X2
  assume a: "x = tryLock X win" "(res, X1) = x"
     and b: "waitForPropChange X1 win lockatom = Return r X2"
     and c: "\<not> \<not> snd r"
  from a have "tryLock X win = (res, X1)" by simp
  from tryLock_quitting [OF this] waitForPropChange_good [OF b] c
  show "((X2, win), X, win) \<in> measure (\<lambda>(X, win). if quitting X then 0 else 1)"
    by simp
qed

declare lockFirefox.simps [simp del]

definition unlockFirefox :: "xserver \<Rightarrow> window \<Rightarrow> xserver" where
  "unlockFirefox X win = DeletePropertyReq X win lockatom"

section \<open>The session\<close>

text \<open>
  \<open>getResponse\<close>.  \<open>!good || event.State != xproto.PropertyNewValue\<close> reads the
  event only when \<open>good\<close> holds; reading the undefined event would be a nil
  dereference.
\<close>

definition getResponse :: "xserver \<Rightarrow> window \<Rightarrow> string result" where
  "getResponse X win =
     (case waitForPropChange X win responseatom of
        Return r X1 \<Rightarrow>
          (case r of
             (event, good) \<Rightarrow>
               if \<not> good then Return [] X1
               else (case event of
                       None \<Rightarrow> Panic ''nil pointer dereference''
                     | Some e \<Rightarrow>
                         if evState e \<noteq> PropertyNewValue then Return [] X1
                         else (case GetProperty X1 win respProp of
                                 Some v \<Rightarrow> Return v X1
                               | None \<Rightarrow> Return [] X1)))
      | Fatal m Y \<Rightarrow> Fatal m Y
      | Panic m \<Rightarrow> Panic m
      | Blocked Y \<Rightarrow> Blocked Y)"

text \<open>The part of \<open>submitCommand\<close> after the lock has been taken or skipped.\<close>

definition sendAndWait :: "xserver \<Rightarrow> window \<Rightarrow> bytes \<Rightarrow> string result" where
  "sendAndWait X win cmd =
     (let (ok, X1) = ChangeProp X win cmdlProp cmd
      in if \<not> ok then Fatal ''command line change:'' (unlockFirefox X1 win)
         else (case getResponse X1 win of
                 Return resp X2 \<Rightarrow> Return resp (Sync (unlockFirefox X2 win))
               | Fatal m Y \<Rightarrow> Fatal m Y
               | Panic m \<Rightarrow> Panic m
               | Blocked Y \<Rightarrow> Blocked Y))"

definition submitCommand :: "xserver \<Rightarrow> window \<Rightarrow> bytes \<Rightarrow> bool \<Rightarrow> string result" where
  "submitCommand X win cmd force =
     (let (ok, X0) = Listen X win
      in if \<not> ok then Fatal ''listen error:'' X0
         else if \<not> force then
           (case lockFirefox X0 win of
              Return u X1 \<Rightarrow> sendAndWait X1 win cmd
            | Fatal m Y \<Rightarrow> Fatal m Y
            | Panic m \<Rightarrow> Panic m
            | Blocked Y \<Rightarrow> Blocked Y)
         else sendAndWait X0 win cmd)"


section \<open>Displays and sessions for the examples\<close>

text \<open>
  A display for the examples: the root window 1 has the children 2 and 3; window 3
  is a window manager frame around window 4.  \<open>desktop p2 p4\<close> gives window 2 the
  properties \<open>p2\<close> and window 4 the properties \<open>p4\<close>.  Nothing is selected, queued
  or sent yet, no write is refused and the other clients do nothing.
\<close>

definition desktop :: "(string \<Rightarrow> bytes option) \<Rightarrow> (string \<Rightarrow> bytes option) \<Rightarrow> xserver" where
  "desktop p2 p4 =
     \<lparr>rootWin = 1,
      alive = (\<lambda>w. w = 1 \<or> w = 2 \<or> w = 3 \<or> w = 4),
      children = (\<lambda>w. if w = 1 then [2, 3] else if w = 3 then [4] else []),
      props = (\<lambda>w. if w = 2 then p2 else if w = 4 then p4 else Map.empty),
      rejects = (\<lambda>w p. False),
      selected = (\<lambda>w. False),
      evqueue = [],
      quitting = False,
      others = [],
      reqs = []\<rparr>"

text \<open>The properties of a Firefox window with the given user and profile values.\<close>

definition firefoxProps :: "bytes option \<Rightarrow> bytes option \<Rightarrow> string \<Rightarrow> bytes option" where
  "firefoxProps user profile =
     (\<lambda>p. if p = ''WM_STATE'' then Some ''1''
          else if p = versProp then Some ''5.1''
          else if p = userProp then user
          else if p = profProp then profile
          else if p = progProp then Some ''firefox''
          else None)"


definition xyzProfile :: string where
  "xyzProfile = ''/home/u/.mozilla/firefox/xyz.default''"



text \<open>
  The Firefox window 4 of the example display with the lock property set to \<open>lock\<close>
  (or not set), and the other clients' requests \<open>script\<close>.
\<close>

definition lockedProps :: "bytes option \<Rightarrow> string \<Rightarrow> bytes option" where
  "lockedProps lock =
     (\<lambda>p. if p = lockProp then lock else firefoxProps (Some ''u'') (Some ''default'') p)"

definition session0 :: "bytes option \<Rightarrow> envstep list list \<Rightarrow> xserver" where
  "session0 lock script = (desktop Map.empty (lockedProps lock))\<lparr>others := script\<rparr>"

text \<open>A server that refuses every write of the property \<open>prop\<close>.\<close>

definition refusing :: "string \<Rightarrow> xserver \<Rightarrow> xserver" where
  "refusing prop X = X\<lparr>rejects := (\<lambda>w p. p = prop)\<rparr>"

text \<open>The value a call returns, if it returns; the requests sent when it has ended.\<close>

definition returned :: "'a result \<Rightarrow> 'a option" where
  "returned r = (case r of Return v X \<Rightarrow> Some v | _ \<Rightarrow> None)"

definition requests :: "'a result \<Rightarrow> xreq list" where
  "requests r =
     (case r of Return v X \<Rightarrow> reqs X | Fatal m X \<Rightarrow> reqs X | Panic m \<Rightarrow> [] | Blocked X \<Rightarrow> reqs X)"

definition isBlocked :: "'a result \<Rightarrow> bool" where
  "isBlocked r = (case r of Blocked X \<Rightarrow> True | _ \<Rightarrow> False)"

text \<open>The message of \<open>log.Fatal\<close>, if the call has ended with it.\<close>

definition exitMessage :: "'a result \<Rightarrow> string option" where
  "exitMessage r = (case r of Fatal m X \<Rightarrow> Some m | _ \<Rightarrow> None)"

definition exampleCmd :: bytes where
  "exampleCmd = encodeCommandLine ''/'' [''firefox'', ''http://example.org/'']"



section \<open>Facts about the encoder\<close>

lemma uint32LE_putUint32:
  "putUint32 v = [b0, b1, b2, b3] \<Longrightarrow> uint32LE b0 b1 b2 b3 = v"
proof -
  assume a: "putUint32 v = [b0, b1, b2, b3]"
  define n where "n = unat v"
  have n: "n < 4294967296" using unsigned_less [of v, where ?'a = nat] by (simp add: n_def)
  have b: "of_char b0 = n mod 256" "of_char b1 = n div 256 mod 256"
    "of_char b2 = n div 65536 mod 256" "of_char b3 = n div 16777216 mod 256"
    using a by (auto simp: putUint32_def n_def unat_drop_bit_eq drop_bit_eq_div unat_div)
  define q1 q2 q3 where "q1 = n div 256" and "q2 = q1 div 256" and "q3 = q2 div 256"
  have e2: "n div 65536 = q2" and e3: "n div 16777216 = q3"
    by (simp_all add: q1_def q2_def q3_def div_mult2_eq)
  have "q1 < 16777216" using n unfolding q1_def by arith
  then have "q2 < 65536" unfolding q2_def by arith
  then have "q3 < 256" unfolding q3_def by arith
  then have s3: "q3 mod 256 = q3" by simp
  have s0: "n = n mod 256 + 256 * q1" unfolding q1_def by simp
  have s1: "q1 = q1 mod 256 + 256 * q2" unfolding q2_def by simp
  have s2: "q2 = q2 mod 256 + 256 * q3" unfolding q3_def by simp
  have "n mod 256 + 256 * (q1 mod 256) + 65536 * (q2 mod 256) + 16777216 * (q3 mod 256) = n"
    using s0 s1 s2 s3 by linarith
  then have "n mod 256 + 256 * (n div 256 mod 256) + 65536 * (n div 65536 mod 256)
        + 16777216 * (n div 16777216 mod 256) = n"
    by (simp add: e2 e3 q1_def)
  then have "uint32LE b0 b1 b2 b3 = of_nat n"
    unfolding uint32LE_def b by (rule arg_cong)
  then show ?thesis
    by (simp add: n_def)
qed

lemma encodeArgs_snd:
  "snd (encodeArgs as i arr arenc off) = arenc @ strtab as"
  by (induction as arbitrary: i arr arenc off) (simp_all add: strtab_def addArgStr_def)

lemma encodeArgs_fst:
  "i + length as < length arr \<Longrightarrow>
   fst (encodeArgs as i arr arenc off) =
     take (i + 1) arr @ map of_nat (offsets off as) @ drop (i + 1 + length as) arr"
proof (induction as arbitrary: i arr arenc off)
  case Nil
  then show ?case by simp
next
  case (Cons a as)
  have "take (Suc (Suc i)) (arr[Suc i := of_nat off]) = take (Suc i) arr @ [of_nat off]"
    using Cons.prems by (simp add: take_Suc_conv_app_nth)
  with Cons show ?case
    by (simp add: addArgStr_def)
qed

lemma encodeCommandLine_closed:
  "encodeCommandLine pwd args =
     binaryWrite (of_nat (length args) #
                  map of_nat (offsets (4 * (length args + 1) + length pwd + 1) args))
     @ pwd @ [NUL] @ strtab args"
proof -
  let ?arr = "(replicate (length args + 1) (0::u32))[0 := of_nat (length args)]"
  let ?r = "encodeArgs args 0 ?arr (pwd @ [NUL]) (length ?arr * 4 + (length pwd + 1))"
  have f: "fst ?r = of_nat (length args) #
             map of_nat (offsets (4 * (length args + 1) + length pwd + 1) args)"
    by (subst encodeArgs_fst) (simp_all add: mult.commute)
  have s: "snd ?r = pwd @ [NUL] @ strtab args"
    by (simp add: encodeArgs_snd)
  show ?thesis
    using f s by (simp add: encodeCommandLine_def addArgStr_def split_beta Let_def)
qed


lemma char_of_0: "char_of (0::nat) = CHR 0x00"
  by (simp add: char_of_def)

lemma char_of_Suc_0: "char_of (Suc 0) = CHR 0x01"
  by code_simp

lemma putUint32_0: "putUint32 0 = [NUL, NUL, NUL, NUL]"
  by (simp add: putUint32_def NUL_def char_of_0)

lemma putUint32_1: "putUint32 1 = [CHR 0x01, NUL, NUL, NUL]"
  by (simp add: putUint32_def NUL_def char_of_0 char_of_Suc_0)

lemma length_putUint32: "length (putUint32 v) = 4"
  by (simp add: putUint32_def)

lemma length_binaryWrite: "length (binaryWrite ws) = 4 * length ws"
  by (induction ws) (simp_all add: binaryWrite_def length_putUint32)

lemma headerAt_putUint32: "headerAt (putUint32 w @ rest) 0 = Some w"
proof -
  obtain b0 b1 b2 b3 where p: "putUint32 w = [b0, b1, b2, b3]"
    by (simp add: putUint32_def)
  then show ?thesis
    by (simp add: headerAt_def uint32LE_putUint32 [OF p])
qed

lemma headerAt_binaryWrite:
  "k < length ws \<Longrightarrow> headerAt (binaryWrite ws @ rest) k = Some (ws ! k)"
proof (induction ws arbitrary: k)
  case Nil
  then show ?case by simp
next
  case (Cons w ws)
  show ?case
  proof (cases k)
    case 0
    then show ?thesis
      using headerAt_putUint32 [of w "binaryWrite ws @ rest"]
      by (simp add: binaryWrite_def)
  next
    case (Suc j)
    have "headerAt (binaryWrite (w # ws) @ rest) (Suc j) = headerAt (binaryWrite ws @ rest) j"
      by (simp add: headerAt_def binaryWrite_def length_putUint32)
    with Suc Cons show ?thesis by simp
  qed
qed

lemma length_offsets: "length (offsets off as) = length as"
  by (induction as arbitrary: off) simp_all

lemma offsets_nth:
  "i < length as \<Longrightarrow> offsets off as ! i = off + length (strtab (take i as))"
proof (induction as arbitrary: off i)
  case Nil
  then show ?case by simp
next
  case (Cons a as)
  then show ?case
    by (cases i) (simp_all add: strtab_def)
qed

lemma strtab_split:
  "i < length as \<Longrightarrow>
   strtab as = strtab (take i as) @ (as ! i) @ [NUL] @ strtab (drop (Suc i) as)"
proof -
  assume "i < length as"
  then have "as = take i as @ (as ! i) # drop (Suc i) as"
    by (simp add: id_take_nth_drop)
  then have "strtab as = strtab (take i as @ (as ! i) # drop (Suc i) as)"
    by simp
  then show ?thesis
    by (simp add: strtab_def)
qed

lemma length_encodeCommandLine:
  "length (encodeCommandLine pwd args) =
     4 * (length args + 1) + length pwd + 1 + length (strtab args)"
  by (simp add: encodeCommandLine_closed length_binaryWrite length_offsets)

lemma drop_offset_encodeCommandLine:
  assumes "i < length args"
  shows "drop (offsets (4 * (length args + 1) + length pwd + 1) args ! i)
              (encodeCommandLine pwd args)
         = (args ! i) @ [NUL] @ strtab (drop (Suc i) args)"
proof -
  let ?H = "binaryWrite (of_nat (length args) #
               map of_nat (offsets (4 * (length args + 1) + length pwd + 1) args))"
  let ?pre = "?H @ pwd @ [NUL] @ strtab (take i args)"
  have len: "length ?pre = offsets (4 * (length args + 1) + length pwd + 1) args ! i"
    using assms by (simp add: offsets_nth length_binaryWrite length_offsets)
  have "encodeCommandLine pwd args = ?pre @ (args ! i) @ [NUL] @ strtab (drop (Suc i) args)"
    using strtab_split [OF assms] by (simp add: encodeCommandLine_closed)
  then show ?thesis
    using len by (metis append_eq_conv_conj)
qed

lemma cstringAt_region:
  "NUL \<notin> set s \<Longrightarrow> drop off buf = s @ [NUL] @ rest \<Longrightarrow> cstringAt buf off = Some s"
  by (auto simp: cstringAt_def takeWhile_tail)

lemma regionAt_drop:
  "drop off buf = s @ [NUL] @ rest \<Longrightarrow> regionAt buf off s"
  by (simp add: regionAt_def)

lemma decodeArgv_map:
  "(\<And>k. k \<in> set ks \<Longrightarrow> \<exists>off. headerAt buf k = Some off \<and> cstringAt buf (unat off) = Some (f k))
   \<Longrightarrow> decodeArgv buf ks = Some (map f ks)"
proof (induction ks)
  case Nil
  then show ?case by simp
next
  case (Cons k ks)
  obtain off where "headerAt buf k = Some off" "cstringAt buf (unat off) = Some (f k)"
    using Cons.prems [of k] by auto
  moreover have "decodeArgv buf ks = Some (map f ks)"
    using Cons by simp
  ultimately show ?case by simp
qed


section \<open>Claims about the encoder\<close>

text \<open>
  Claim C1 (as amended).  For every working directory and every list of arguments free
  of zero bytes whose encoding is shorter than \<open>2 ^ 32\<close> bytes, reading the buffer
  back per the documented layout recovers the arguments: the first header word is the
  number of arguments, header word \<open>i + 1\<close> is the offset, from the start of the
  buffer, of a zero-terminated region that holds argument \<open>i\<close>, and the decoder returns
  exactly the argument list.
\<close>

theorem encodeCommandLine_roundtrip:
  assumes nonul: "\<forall>a \<in> set argv. NUL \<notin> set a"
      and small: "length (encodeCommandLine pwd argv) < 2 ^ 32"
  shows "map_option unat (headerAt (encodeCommandLine pwd argv) 0) = Some (length argv)
       \<and> (\<forall>i < length argv.
             \<exists>off. headerAt (encodeCommandLine pwd argv) (i + 1) = Some off
                 \<and> regionAt (encodeCommandLine pwd argv) (unat off) (argv ! i))
       \<and> decodeCommandLine (encodeCommandLine pwd argv) = Some argv"
proof -
  let ?buf = "encodeCommandLine pwd argv"
  let ?offs = "offsets (4 * (length argv + 1) + length pwd + 1) argv"
  let ?ws = "of_nat (length argv) # map of_nat ?offs :: u32 list"
  have buf: "?buf = binaryWrite ?ws @ pwd @ [NUL] @ strtab argv"
    by (rule encodeCommandLine_closed)
  have lenws: "length ?ws = length argv + 1"
    by (simp add: length_offsets)
  have n_small: "length argv < 2 ^ 32"
    using small by (simp add: length_encodeCommandLine)
  have h0: "headerAt ?buf 0 = Some (of_nat (length argv))"
    unfolding buf using headerAt_binaryWrite [of 0 ?ws] by simp
  have argc: "unat (of_nat (length argv) :: u32) = length argv"
    using n_small by (simp add: unat_of_nat)
  have each: "headerAt ?buf (i + 1) = Some (of_nat (?offs ! i))
              \<and> unat (of_nat (?offs ! i) :: u32) = ?offs ! i
              \<and> drop (?offs ! i) ?buf = (argv ! i) @ [NUL] @ strtab (drop (Suc i) argv)"
    if i: "i < length argv" for i
  proof -
    have "headerAt ?buf (i + 1) = Some (?ws ! (i + 1))"
      unfolding buf using headerAt_binaryWrite [of "i + 1" ?ws] i lenws by simp
    then have a: "headerAt ?buf (i + 1) = Some (of_nat (?offs ! i))"
      using i by (simp add: length_offsets)
    have d: "drop (?offs ! i) ?buf = (argv ! i) @ [NUL] @ strtab (drop (Suc i) argv)"
      by (rule drop_offset_encodeCommandLine [OF i])
    have "?offs ! i < length ?buf"
    proof (rule ccontr)
      assume "\<not> ?offs ! i < length ?buf"
      then have "drop (?offs ! i) ?buf = []" by simp
      with d show False by simp
    qed
    then have "?offs ! i < 2 ^ 32" using small by simp
    then have u: "unat (of_nat (?offs ! i) :: u32) = ?offs ! i"
      by (simp add: unat_of_nat)
    from a u d show ?thesis by simp
  qed
  have regions: "\<forall>i < length argv.
      \<exists>off. headerAt ?buf (i + 1) = Some off \<and> regionAt ?buf (unat off) (argv ! i)"
  proof (intro allI impI)
    fix i assume i: "i < length argv"
    from each [OF i] show "\<exists>off. headerAt ?buf (i + 1) = Some off
        \<and> regionAt ?buf (unat off) (argv ! i)"
      using regionAt_drop by fastforce
  qed
  have "decodeArgv ?buf [1..<Suc (length argv)] = Some (map (\<lambda>k. argv ! (k - 1)) [1..<Suc (length argv)])"
  proof (rule decodeArgv_map)
    fix k assume "k \<in> set [1..<Suc (length argv)]"
    then have "1 \<le> k \<and> k < Suc (length argv)"
      by (simp del: upt_Suc)
    then obtain i where k: "k = i + 1" and i: "i < length argv"
      by (cases k) simp_all
    have "NUL \<notin> set (argv ! i)" using nonul i by simp
    with each [OF i] have "cstringAt ?buf (unat (of_nat (?offs ! i) :: u32)) = Some (argv ! i)"
      using cstringAt_region by metis
    with each [OF i] k
    show "\<exists>off. headerAt ?buf k = Some off \<and> cstringAt ?buf (unat off) = Some (argv ! (k - 1))"
      by simp
  qed
  moreover have "map (\<lambda>k. argv ! (k - 1)) [1..<Suc (length argv)] = argv"
    by (rule nth_equalityI) (simp_all del: upt_Suc)
  ultimately have dec: "decodeCommandLine ?buf = Some argv"
    by (simp add: decodeCommandLine_def h0 argc del: upt_Suc)
  from h0 argc regions dec show ?thesis by simp
qed


text \<open>The theorem at the working directory \<open>/\<close> and the arguments \<open>firefox -new-window\<close>.\<close>

theorem encodeCommandLine_roundtrip_witness:
  "map_option unat (headerAt (encodeCommandLine ''/'' [''firefox'', ''-new-window'']) 0) = Some 2
   \<and> (\<exists>off. headerAt (encodeCommandLine ''/'' [''firefox'', ''-new-window'']) 2 = Some off
         \<and> regionAt (encodeCommandLine ''/'' [''firefox'', ''-new-window'']) (unat off)
               ''-new-window'')
   \<and> decodeCommandLine (encodeCommandLine ''/'' [''firefox'', ''-new-window''])
       = Some [''firefox'', ''-new-window'']"
proof -
  have a: "\<forall>a \<in> set [''firefox'', ''-new-window'']. NUL \<notin> set a"
    by (simp add: NUL_def)
  have b: "length (encodeCommandLine ''/'' [''firefox'', ''-new-window'']) < 2 ^ 32"
    by (simp add: length_encodeCommandLine strtab_def)
  note r = encodeCommandLine_roundtrip [OF a b]
  have p1: "map_option unat (headerAt (encodeCommandLine ''/'' [''firefox'', ''-new-window'']) 0)
            = Some 2"
    using r [THEN conjunct1] by (simp add: numeral_2_eq_2)
  have p2: "\<exists>off. headerAt (encodeCommandLine ''/'' [''firefox'', ''-new-window'']) 2 = Some off
        \<and> regionAt (encodeCommandLine ''/'' [''firefox'', ''-new-window'']) (unat off)
              ''-new-window''"
    using r [THEN conjunct2, THEN conjunct1, rule_format, of 1] by (simp add: numeral_2_eq_2)
  have p3: "decodeCommandLine (encodeCommandLine ''/'' [''firefox'', ''-new-window''])
            = Some [''firefox'', ''-new-window'']"
    using r [THEN conjunct2, THEN conjunct2] .
  from p1 p2 p3 show ?thesis by (intro conjI)
qed

text \<open>
  Claim C1 as stated, for every working directory, fails where the buffer reaches
  \<open>2 ^ 32\<close> bytes: the offsets are stored as \<open>uint32(off)\<close>.  With a working
  directory of \<open>2 ^ 32 - 9\<close> bytes and the single argument \<open>x\<close> the offset
  \<open>8 + (2 ^ 32 - 9) + 1\<close> is stored as \<open>0\<close>, which is the offset of the header
  itself and not of a region that holds \<open>x\<close>.
\<close>

theorem encodeCommandLine_roundtrip_counterexample:
  "headerAt (encodeCommandLine hugePwd [''x'']) 1 = Some 0
   \<and> \<not> regionAt (encodeCommandLine hugePwd [''x'']) 0 ''x''
   \<and> decodeCommandLine (encodeCommandLine hugePwd [''x'']) \<noteq> Some [''x'']"
proof -
  let ?buf = "encodeCommandLine hugePwd [''x'']"
  have len: "length hugePwd = 4294967287"
    by (simp add: hugePwd_def)
  have w: "(4294967296 :: u32) = 0"
    by simp
  have buf: "?buf = binaryWrite [1, 0] @ hugePwd @ [NUL] @ strtab [''x'']"
    by (simp add: encodeCommandLine_closed len w)
  have h0: "headerAt ?buf 0 = Some 1"
    unfolding buf using headerAt_binaryWrite [of 0 "[1, 0]"] by simp
  have h1: "headerAt ?buf 1 = Some 0"
    unfolding buf using headerAt_binaryWrite [of 1 "[1, 0]"] by simp
  have start: "?buf = CHR 0x01 # NUL # NUL # NUL # (putUint32 0 @ hugePwd @ [NUL] @ strtab [''x''])"
    by (simp add: buf binaryWrite_def putUint32_1)
  have r: "\<not> regionAt ?buf 0 ''x''"
    by (subst start) (simp add: regionAt_def)
  have c: "cstringAt ?buf 0 = Some [CHR 0x01]"
    by (subst start) (simp add: cstringAt_def NUL_def)
  have h1': "headerAt ?buf (Suc 0) = Some 0"
    using h1 by simp
  have "decodeCommandLine ?buf = Some [[CHR 0x01]]"
    by (simp add: decodeCommandLine_def h0 h1' c)
  with h1 r show ?thesis by simp
qed

text \<open>
  Claim C3 (as amended).  For the working directory \<open>/\<close> and the arguments
  \<open>firefox -new-window\<close> the buffer is the little-endian header \<open>2, 14, 22\<close>
  (12 bytes) followed by the bytes of \<open>/\<close>, \<open>firefox\<close> and \<open>-new-window\<close>, each
  closed by a zero byte.  The string table starts at byte 12 with the working
  directory; the first offset of the header is 14, the start of \<open>firefox\<close>, counted
  from the start of the buffer.
\<close>

theorem encodeCommandLine_example:
  "encodeCommandLine ''/'' [''firefox'', ''-new-window'']
     = map char_of [2, 0, 0, 0, 14, 0, 0, 0, 22, 0, 0, 0 :: nat]
       @ ''/'' @ [NUL] @ ''firefox'' @ [NUL] @ ''-new-window'' @ [NUL]
   \<and> map (\<lambda>k. map_option unat (headerAt (encodeCommandLine ''/'' [''firefox'', ''-new-window'']) k))
         [0, 1, 2] = [Some 2, Some 14, Some 22]
   \<and> drop 12 (encodeCommandLine ''/'' [''firefox'', ''-new-window''])
     = ''/'' @ [NUL] @ ''firefox'' @ [NUL] @ ''-new-window'' @ [NUL]"
  by (simp add: encodeCommandLine_def addArgStr_def binaryWrite_def putUint32_def
      headerAt_def uint32LE_def NUL_def)

text \<open>
  Claim C3 as stated gives the header as \<open>2, 12, ...\<close>.  The second header word is
  the offset of the first argument, which stands after the working directory: it is
  14, not 12.
\<close>

theorem encodeCommandLine_example_counterexample:
  "map_option unat (headerAt (encodeCommandLine ''/'' [''firefox'', ''-new-window'']) 1) \<noteq> Some 12"
  by (simp add: encodeCommandLine_def addArgStr_def binaryWrite_def putUint32_def
      headerAt_def uint32LE_def NUL_def)

section \<open>Claims about the window matcher\<close>

lemmas propNames = lockProp_def cmdlProp_def respProp_def versProp_def userProp_def
  profProp_def progProp_def firefoxVersion_def lockatom_def responseatom_def

lemma GetProperty_desktop:
  "GetProperty (desktop p2 p4) w p =
     (if w = 2 then p2 p else if w = 4 then p4 p else None)"
  by (simp add: GetProperty_def desktop_def)

lemma ClientWindow_desktop:
  "ClientWindow (desktop p2 p4) 2 = Inr 2"
  "p4 ''WM_STATE'' \<noteq> None \<Longrightarrow> ClientWindow (desktop p2 p4) 3 = Inr 4"
  by (simp_all add: ClientWindow_def QueryTree_def GetProperty_def desktop_def)

lemma propMatch_empty_filter:
  "propMatch X win prop [] = (GetProperty X win prop \<noteq> None)"
  by (simp add: propMatch_def split: option.splits)

lemma firefoxProps_simps:
  "firefoxProps u p ''WM_STATE'' = Some ''1''"
  "firefoxProps u p versProp = Some ''5.1''"
  "firefoxProps u p userProp = u"
  "firefoxProps u p profProp = p"
  "firefoxProps u p progProp = Some ''firefox''"
  by (simp_all add: firefoxProps_def propNames)


lemma QueryTree_desktop:
  "QueryTree (desktop p2 p4) (rootWin (desktop p2 p4)) = Some [2, 3]"
  by (simp add: QueryTree_def desktop_def)

text \<open>
  Claim C4 says that an empty filter matches also where the property is not set.  The
  code returns \<open>false\<close> there, against the comment of \<open>propMatch\<close>: on a display whose
  Firefox window has the right version, profile and program but no user property, the
  empty user filter does not match, and \<open>findFirefox\<close> with the default filters finds
  no window.
\<close>

theorem propMatch_absent_property:
  "propMatch (desktop Map.empty (firefoxProps None (Some ''default''))) 4 userProp [] = False
   \<and> findFirefox (desktop Map.empty (firefoxProps None (Some ''default'')))
        [] ''default'' ''firefox'' = Inr (0, [])"
proof -
  let ?D = "desktop Map.empty (firefoxProps None (Some ''default''))"
  have u: "propMatch ?D 4 userProp [] = False"
    by (simp add: propMatch_def GetProperty_desktop firefoxProps_simps)
  have "findLoop ?D [] ''default'' ''firefox'' [2, 3] [] = Inr (None, [])"
    by (simp add: ClientWindow_desktop GetProperty_desktop firefoxProps_simps u
        firefoxVersion_def)
  then have "findFirefox ?D [] ''default'' ''firefox'' = Inr (0, [])"
    by (simp add: findFirefox_def QueryTree_desktop)
  with u show ?thesis by simp
qed

text \<open>
  Claim C5 (as amended).  A window whose profile property is set to \<open>sv\<close> matches
  the profile filter \<open>val\<close> exactly when the filter is empty, or equals \<open>sv\<close>, or
  \<open>sv\<close> begins with a slash, \<open>val\<close> does not, and \<open>sv\<close> ends with a dot followed
  by \<open>val\<close>.  Only the dot-suffix form is accepted.
\<close>

theorem profileMatch_rule:
  assumes "GetProperty X win prop = Some sv"
  shows "profileMatch X win prop val = Inr True
         \<longleftrightarrow> (val = [] \<or> sv = val
              \<or> (take 1 sv = ''/'' \<and> take 1 val \<noteq> ''/'' \<and> HasSuffix sv (''.'' @ val)))"
  using assms by (cases sv; cases val) (auto simp: profileMatch_def)

text \<open>
  The rule at the profile property \<open>/home/u/.mozilla/firefox/xyz.default\<close>: the
  filter \<open>default\<close> matches, the filter \<open>xyz.default\<close> does not, the full path does.
\<close>

theorem profileMatch_rule_witness:
  "profileMatch (desktop Map.empty (firefoxProps (Some ''u'') (Some xyzProfile))) 4 profProp
     ''default'' = Inr True
   \<and> profileMatch (desktop Map.empty (firefoxProps (Some ''u'') (Some xyzProfile))) 4 profProp
     ''xyz.default'' \<noteq> Inr True
   \<and> profileMatch (desktop Map.empty (firefoxProps (Some ''u'') (Some xyzProfile))) 4 profProp
     xyzProfile = Inr True"
proof -
  let ?D = "desktop Map.empty (firefoxProps (Some ''u'') (Some xyzProfile))"
  have g: "GetProperty ?D 4 profProp = Some xyzProfile"
    by (simp add: GetProperty_desktop firefoxProps_simps)
  show ?thesis
    unfolding profileMatch_rule [OF g]
    by (simp add: xyzProfile_def HasSuffix_def)
qed

text \<open>
  Claim C5 as stated also accepts a property that ends with a slash followed by the
  filter.  The code does not: the profile property
  \<open>/home/u/.mozilla/firefox/xyz.default\<close> ends with \<open>/xyz.default\<close>, and the filter
  \<open>xyz.default\<close> does not match it.
\<close>

theorem profileMatch_path_suffix_counterexample:
  "HasSuffix xyzProfile (''/'' @ ''xyz.default'')
   \<and> profileMatch (desktop Map.empty (firefoxProps (Some ''u'') (Some xyzProfile))) 4 profProp
       ''xyz.default'' = Inr False"
  by (simp add: profileMatch_def GetProperty_desktop firefoxProps_simps xyzProfile_def
      HasSuffix_def)

text \<open>
  Claim C10.  \<open>profileMatch\<close> panics with an index out of range exactly when the
  profile property is set to the empty string and the filter is not empty; in every
  other case it returns a truth value.
\<close>

theorem profileMatch_panic:
  "(profileMatch X win prop val = Inl (RuntimePanic ''index out of range [0] with length 0'')
      \<longleftrightarrow> GetProperty X win prop = Some [] \<and> val \<noteq> [])
   \<and> ((\<exists>b. profileMatch X win prop val = Inr b)
      \<longleftrightarrow> \<not> (GetProperty X win prop = Some [] \<and> val \<noteq> []))"
  by (cases "GetProperty X win prop"; cases val)
     (auto simp: profileMatch_def split: list.splits)

text \<open>The panic on a window whose profile property is empty, with the filter \<open>default\<close>.\<close>

theorem profileMatch_panic_witness:
  "profileMatch (desktop Map.empty (firefoxProps (Some ''u'') (Some []))) 4 profProp ''default''
     = Inl (RuntimePanic ''index out of range [0] with length 0'')
   \<and> findFirefox (desktop Map.empty (firefoxProps (Some ''u'') (Some []))) [] ''default'' ''firefox''
     = Inl (RuntimePanic ''index out of range [0] with length 0'')"
proof -
  let ?D = "desktop Map.empty (firefoxProps (Some ''u'') (Some []))"
  have g: "GetProperty ?D 4 profProp = Some [] \<and> ''default'' \<noteq> []"
    by (simp add: GetProperty_desktop firefoxProps_simps)
  have p: "profileMatch ?D 4 profProp ''default''
           = Inl (RuntimePanic ''index out of range [0] with length 0'')"
    using profileMatch_panic [of ?D 4 profProp "''default''"] g by blast
  have "findLoop ?D [] ''default'' ''firefox'' [2, 3] []
        = Inl (RuntimePanic ''index out of range [0] with length 0'')"
    by (simp add: ClientWindow_desktop GetProperty_desktop firefoxProps_simps p
        propMatch_def firefoxVersion_def)
  then have "findFirefox ?D [] ''default'' ''firefox''
             = Inl (RuntimePanic ''index out of range [0] with length 0'')"
    by (simp add: findFirefox_def QueryTree_desktop)
  with p show ?thesis by simp
qed







section \<open>Facts about the event loop and the session\<close>

lemma reqs_deliver: "reqs (deliver w ev X) = reqs X"
  by (simp add: deliver_def)

lemma reqs_envStep: "reqs (envStep X s) = reqs X"
  by (cases s) (simp_all add: setProp_def delProp_def reqs_deliver)

lemma reqs_foldl_envStep: "reqs (foldl envStep X batch) = reqs X"
  by (induction batch arbitrary: X) (simp_all add: reqs_envStep)

text \<open>The first step of the wait, case by case.\<close>

lemma wait_quitting:
  "quitting X \<Longrightarrow> waitForPropChange X win patom = Return (None, False) (Quit X)"
  by (simp add: waitForPropChange.simps [of X])

lemma wait_Blocked:
  "\<not> quitting X \<Longrightarrow> evqueue X = [] \<Longrightarrow> others X = [] \<Longrightarrow>
   waitForPropChange X win patom = Blocked X"
  by (simp add: waitForPropChange.simps [of X])

lemma wait_batch:
  "\<not> quitting X \<Longrightarrow> evqueue X = [] \<Longrightarrow> others X = batch # rest \<Longrightarrow>
   waitForPropChange X win patom
     = waitForPropChange (foldl envStep (X\<lparr>others := rest\<rparr>) batch) win patom"
  by (simp add: waitForPropChange.simps [of X])

lemma wait_property:
  "\<not> quitting X \<Longrightarrow> evqueue X = PropertyNotify e # q \<Longrightarrow> evWindow e = win \<Longrightarrow>
   evAtom e = patom \<Longrightarrow>
   waitForPropChange X win patom = Return (Some e, True) (Quit (X\<lparr>evqueue := q\<rparr>))"
  by (simp add: waitForPropChange.simps [of X])

lemma wait_other_property:
  "\<not> quitting X \<Longrightarrow> evqueue X = PropertyNotify e # q \<Longrightarrow>
   \<not> (evWindow e = win \<and> evAtom e = patom) \<Longrightarrow>
   waitForPropChange X win patom = waitForPropChange (X\<lparr>evqueue := q\<rparr>) win patom"
  by (auto simp: waitForPropChange.simps [of X])

lemma wait_destroy:
  "\<not> quitting X \<Longrightarrow> evqueue X = DestroyNotify win # q \<Longrightarrow>
   waitForPropChange X win patom = Return (None, False) (Quit (X\<lparr>evqueue := q\<rparr>))"
  by (simp add: waitForPropChange.simps [of X])

lemma wait_other_destroy:
  "\<not> quitting X \<Longrightarrow> evqueue X = DestroyNotify w # q \<Longrightarrow> w \<noteq> win \<Longrightarrow>
   waitForPropChange X win patom = waitForPropChange (X\<lparr>evqueue := q\<rparr>) win patom"
  by (simp add: waitForPropChange.simps [of X])

text \<open>
  What the wait can end with: \<open>good\<close> comes with a property event for the window and
  the atom waited for; otherwise the event is the undefined one.  The wait neither
  exits nor panics, it sends no request, and it returns with the quit flag set.
\<close>

lemma wait_cases:
  "(\<exists>e X'. waitForPropChange X win patom = Return (Some e, True) X'
            \<and> evWindow e = win \<and> evAtom e = patom \<and> reqs X' = reqs X \<and> quitting X')
   \<or> (\<exists>X'. waitForPropChange X win patom = Return (None, False) X' \<and> reqs X' = reqs X
            \<and> quitting X')
   \<or> (\<exists>X'. waitForPropChange X win patom = Blocked X' \<and> reqs X' = reqs X)"
proof (induction X win patom rule: waitForPropChange.induct)
  case (1 X win patom)
  show ?case
  proof (cases "quitting X")
    case True
    then show ?thesis
      by (simp add: wait_quitting Quit_def)
  next
    case nq: False
    show ?thesis
    proof (cases "evqueue X")
      case Nil
      show ?thesis
      proof (cases "others X")
        case Nil: Nil
        with \<open>evqueue X = []\<close> nq show ?thesis
          by (simp add: wait_Blocked)
      next
        case (Cons batch rest)
        from "1.IH"(1) [OF nq Nil Cons] show ?thesis
          unfolding wait_batch [OF nq Nil Cons] by (simp add: reqs_foldl_envStep)
      qed
    next
      case (Cons ev q)
      show ?thesis
      proof (cases ev)
        case (PropertyNotify e)
        show ?thesis
        proof (cases "evWindow e = win \<and> evAtom e = patom")
          case True
          with Cons PropertyNotify nq show ?thesis
            by (simp add: wait_property Quit_def)
        next
          case False
          from "1.IH"(2) [OF nq Cons PropertyNotify False] show ?thesis
            using Cons PropertyNotify False nq by (simp add: wait_other_property)
        qed
      next
        case (DestroyNotify w)
        show ?thesis
        proof (cases "w = win")
          case True
          with Cons DestroyNotify nq show ?thesis
            by (simp add: wait_destroy Quit_def)
        next
          case False
          from "1.IH"(3) [OF nq Cons DestroyNotify False] show ?thesis
            using Cons DestroyNotify False nq by (simp add: wait_other_destroy)
        qed
      qed
    qed
  qed
qed

lemma wait_Return:
  assumes "waitForPropChange X win patom = Return (ev, good) X'"
  shows "reqs X' = reqs X"
    and "good \<Longrightarrow> \<exists>e. ev = Some e \<and> evWindow e = win \<and> evAtom e = patom"
    and "\<not> good \<Longrightarrow> ev = None"
  using wait_cases [of X win patom] assms by auto

lemma wait_not_Fatal: "waitForPropChange X win patom \<noteq> Fatal m Y"
  using wait_cases [of X win patom] by auto

lemma wait_not_Panic: "waitForPropChange X win patom \<noteq> Panic m"
  using wait_cases [of X win patom] by auto

lemma wait_Blocked_reqs:
  "waitForPropChange X win patom = Blocked X' \<Longrightarrow> reqs X' = reqs X"
  using wait_cases [of X win patom] by auto

lemma GetProperty_unlockFirefox:
  "GetProperty (unlockFirefox X win) win lockProp = None"
  by (simp add: unlockFirefox_def DeletePropertyReq_def delProp_def deliver_def sent_def
      GetProperty_def lockatom_def)

lemma GetProperty_Sync: "GetProperty (Sync X) w p = GetProperty X w p"
  by (simp add: Sync_def sent_def GetProperty_def)

lemma reqs_unlockFirefox:
  "reqs (unlockFirefox X win) = reqs X @ [DeleteProperty win lockatom]"
  by (simp add: unlockFirefox_def DeletePropertyReq_def delProp_def deliver_def sent_def)

lemma reqs_Sync: "reqs (Sync X) = reqs X @ [SyncReq]"
  by (simp add: Sync_def sent_def)

lemma reqs_ChangeProp:
  "reqs (snd (ChangeProp X w p v)) = reqs X @ [ChangeProperty w p v]"
  by (simp add: ChangeProp_def setProp_def deliver_def sent_def)

lemma getResponse_cases:
  "(\<exists>resp X'. getResponse X win = Return resp X' \<and> reqs X' = reqs X)
   \<or> (\<exists>X'. getResponse X win = Blocked X' \<and> reqs X' = reqs X)"
  using wait_cases [of X win responseatom]
  by (auto simp: getResponse_def split: option.splits)

lemmas xdefs = submitCommand_def sendAndWait_def getResponse_def Listen_def ChangeProp_def
  tryLock_def GetPropertyRecorded_def Quit_def unlockFirefox_def DeletePropertyReq_def Grab_def Ungrab_def Sync_def sent_def
  setProp_def delProp_def deliver_def GetProperty_def
  session0_def desktop_def lockedProps_def firefoxProps_def propNames
  refusing_def returned_def requests_def isBlocked_def Let_def

section \<open>Claims about the session\<close>

text \<open>
  Claim C9.  \<open>getResponse\<close> returns the value read from the response property when
  the wait has ended with a property event whose state is \<open>PropertyNewValue\<close>, and
  the empty string when the wait has ended without a property event or with a
  deletion; it blocks when the wait blocks.  Case by case: when the quit flag is set
  the wait fails at once and the result is the empty string; with the flag clear, a
  \<open>DestroyNotify\<close> for the window and a deletion of the response property give the
  empty string, and a new value gives the value of the property.  \<open>getResponse\<close>
  neither exits nor panics.  A session that has selected the events, has taken or
  skipped the lock and has written the command line returns exactly what the wait
  for the response decides, after it has deleted the lock property.
\<close>

theorem getResponse_result:
  "(\<forall>ev good X1. waitForPropChange X win responseatom = Return (ev, good) X1 \<longrightarrow>
      getResponse X win
        = Return (if good \<and> map_option evState ev = Some PropertyNewValue
                  then (case GetProperty X1 win respProp of Some v \<Rightarrow> v | None \<Rightarrow> [])
                  else []) X1)
   \<and> (\<forall>Y. waitForPropChange X win responseatom = Blocked Y \<longrightarrow> getResponse X win = Blocked Y)
   \<and> (quitting X \<longrightarrow> getResponse X win = Return [] (Quit X))
   \<and> (\<forall>q. \<not> quitting X \<and> evqueue X = DestroyNotify win # q \<longrightarrow>
          getResponse X win = Return [] (Quit (X\<lparr>evqueue := q\<rparr>)))
   \<and> (\<forall>q. \<not> quitting X \<and> evqueue X
            = PropertyNotify \<lparr>evWindow = win, evAtom = responseatom, evState = PropertyDelete\<rparr> # q
          \<longrightarrow> getResponse X win = Return [] (Quit (X\<lparr>evqueue := q\<rparr>)))
   \<and> (\<forall>q. \<not> quitting X \<and> evqueue X
            = PropertyNotify \<lparr>evWindow = win, evAtom = responseatom, evState = PropertyNewValue\<rparr> # q
          \<longrightarrow> getResponse X win
              = Return (case GetProperty X win respProp of Some v \<Rightarrow> v | None \<Rightarrow> [])
                  (Quit (X\<lparr>evqueue := q\<rparr>)))
   \<and> (\<forall>m Y. getResponse X win \<noteq> Fatal m Y \<and> getResponse X win \<noteq> Panic m)
   \<and> (\<forall>X0 X1 X2 ev good X3.
          Listen X win = (True, X0)
          \<and> (if force then Return () X0 else lockFirefox X0 win) = Return () X1
          \<and> ChangeProp X1 win cmdlProp cmd = (True, X2)
          \<and> waitForPropChange X2 win responseatom = Return (ev, good) X3 \<longrightarrow>
        submitCommand X win cmd force
          = Return (if good \<and> map_option evState ev = Some PropertyNewValue
                    then (case GetProperty X3 win respProp of Some v \<Rightarrow> v | None \<Rightarrow> [])
                    else [])
              (Sync (unlockFirefox X3 win)))"
proof -
  have a: "\<forall>ev good X1. waitForPropChange X win responseatom = Return (ev, good) X1 \<longrightarrow>
      getResponse X win
        = Return (if good \<and> map_option evState ev = Some PropertyNewValue
                  then (case GetProperty X1 win respProp of Some v \<Rightarrow> v | None \<Rightarrow> [])
                  else []) X1"
  proof (intro allI impI)
    fix ev good X1
    assume w: "waitForPropChange X win responseatom = Return (ev, good) X1"
    show "getResponse X win
        = Return (if good \<and> map_option evState ev = Some PropertyNewValue
                  then (case GetProperty X1 win respProp of Some v \<Rightarrow> v | None \<Rightarrow> [])
                  else []) X1"
    proof (cases good)
      case True
      from wait_Return(2) [OF w True] obtain e where "ev = Some e" by blast
      with w True show ?thesis
        by (simp add: getResponse_def split: option.splits)
    next
      case False
      with w show ?thesis
        by (simp add: getResponse_def)
    qed
  qed
  have b: "\<forall>Y. waitForPropChange X win responseatom = Blocked Y \<longrightarrow> getResponse X win = Blocked Y"
    by (simp add: getResponse_def)
  have c: "quitting X \<longrightarrow> getResponse X win = Return [] (Quit X)"
    by (simp add: getResponse_def wait_quitting)
  have d: "\<forall>q. \<not> quitting X \<and> evqueue X = DestroyNotify win # q \<longrightarrow>
          getResponse X win = Return [] (Quit (X\<lparr>evqueue := q\<rparr>))"
    by (simp add: getResponse_def wait_destroy)
  have e: "\<forall>q. \<not> quitting X \<and> evqueue X
            = PropertyNotify \<lparr>evWindow = win, evAtom = responseatom, evState = PropertyDelete\<rparr> # q
          \<longrightarrow> getResponse X win = Return [] (Quit (X\<lparr>evqueue := q\<rparr>))"
    by (simp add: getResponse_def wait_property)
  have f: "\<forall>q. \<not> quitting X \<and> evqueue X
            = PropertyNotify \<lparr>evWindow = win, evAtom = responseatom, evState = PropertyNewValue\<rparr> # q
          \<longrightarrow> getResponse X win
              = Return (case GetProperty X win respProp of Some v \<Rightarrow> v | None \<Rightarrow> [])
                  (Quit (X\<lparr>evqueue := q\<rparr>))"
    by (simp add: getResponse_def wait_property GetProperty_def Quit_def split: option.splits)
  have g: "\<forall>m Y. getResponse X win \<noteq> Fatal m Y \<and> getResponse X win \<noteq> Panic m"
    using getResponse_cases [of X win] by auto
  have h: "\<forall>X0 X1 X2 ev good X3.
          Listen X win = (True, X0)
          \<and> (if force then Return () X0 else lockFirefox X0 win) = Return () X1
          \<and> ChangeProp X1 win cmdlProp cmd = (True, X2)
          \<and> waitForPropChange X2 win responseatom = Return (ev, good) X3 \<longrightarrow>
        submitCommand X win cmd force
          = Return (if good \<and> map_option evState ev = Some PropertyNewValue
                    then (case GetProperty X3 win respProp of Some v \<Rightarrow> v | None \<Rightarrow> [])
                    else [])
              (Sync (unlockFirefox X3 win))"
  proof (intro allI impI)
    fix X0 X1 X2 ev good X3
    assume p: "Listen X win = (True, X0)
          \<and> (if force then Return () X0 else lockFirefox X0 win) = Return () X1
          \<and> ChangeProp X1 win cmdlProp cmd = (True, X2)
          \<and> waitForPropChange X2 win responseatom = Return (ev, good) X3"
    have a2: "getResponse X2 win
        = Return (if good \<and> map_option evState ev = Some PropertyNewValue
                  then (case GetProperty X3 win respProp of Some v \<Rightarrow> v | None \<Rightarrow> [])
                  else []) X3"
    proof (cases good)
      case True
      from p have w: "waitForPropChange X2 win responseatom = Return (ev, good) X3" by simp
      from wait_Return(2) [OF w True] obtain e where "ev = Some e" by blast
      with w True show ?thesis
        by (simp add: getResponse_def split: option.splits)
    next
      case False
      with p show ?thesis
        by (simp add: getResponse_def)
    qed
    have "submitCommand X win cmd force = sendAndWait X1 win cmd"
    proof (cases force)
      case True
      with p show ?thesis by (simp add: submitCommand_def)
    next
      case False
      with p show ?thesis by (simp add: submitCommand_def)
    qed
    with p a2 show "submitCommand X win cmd force
          = Return (if good \<and> map_option evState ev = Some PropertyNewValue
                    then (case GetProperty X3 win respProp of Some v \<Rightarrow> v | None \<Rightarrow> [])
                    else [])
              (Sync (unlockFirefox X3 win))"
      by (simp add: sendAndWait_def)
  qed
  from a b c d e f g h show ?thesis by (intro conjI)
qed

text \<open>
  Three sessions in force mode.  In the first Firefox sets the response property and
  the session returns its value.  In the second an old response property is deleted
  instead, in the third the window is destroyed: the session returns the empty
  string.  The last conjunct is the theorem at a queue that starts with the deletion
  event.
\<close>

theorem getResponse_result_witness:
  "returned (submitCommand
       (session0 None [[OtherChange 4 respProp ''200 executed command'']]) 4 exampleCmd True)
     = Some ''200 executed command''
   \<and> returned (submitCommand
       ((desktop Map.empty
           ((firefoxProps (Some ''u'') (Some ''default''))(respProp \<mapsto> ''200 old'')))
          \<lparr>others := [[OtherDelete 4 respProp]]\<rparr>)
       4 exampleCmd True)
     = Some []
   \<and> returned (submitCommand (session0 None [[OtherDestroy 4]]) 4 exampleCmd True) = Some []
   \<and> getResponse
       ((session0 None [])
          \<lparr>evqueue := [PropertyNotify \<lparr>evWindow = 4, evAtom = responseatom,
                                       evState = PropertyDelete\<rparr>]\<rparr>) 4
     = Return [] (Quit ((session0 None [])\<lparr>evqueue := []\<rparr>))"
proof -
  have a: "returned (submitCommand
       (session0 None [[OtherChange 4 respProp ''200 executed command'']]) 4 exampleCmd True)
     = Some ''200 executed command''"
    by (simp add: xdefs waitForPropChange.simps)
  have b: "returned (submitCommand
       ((desktop Map.empty
           ((firefoxProps (Some ''u'') (Some ''default''))(respProp \<mapsto> ''200 old'')))
          \<lparr>others := [[OtherDelete 4 respProp]]\<rparr>)
       4 exampleCmd True)
     = Some []"
    by (simp add: xdefs waitForPropChange.simps)
  have b': "returned (submitCommand (session0 None [[OtherDestroy 4]]) 4 exampleCmd True)
            = Some []"
    by (simp add: xdefs waitForPropChange.simps)
  let ?X = "(session0 None [])
          \<lparr>evqueue := [PropertyNotify \<lparr>evWindow = 4, evAtom = responseatom,
                                       evState = PropertyDelete\<rparr>]\<rparr>"
  have "\<not> quitting ?X \<and> evqueue ?X = PropertyNotify \<lparr>evWindow = 4, evAtom = responseatom,
                                       evState = PropertyDelete\<rparr> # []"
    by (simp add: session0_def desktop_def)
  from getResponse_result [of ?X 4 True exampleCmd, THEN conjunct2, THEN conjunct2,
      THEN conjunct2, THEN conjunct2, THEN conjunct1, rule_format, OF this]
  have "getResponse ?X 4 = Return [] (Quit (?X\<lparr>evqueue := []\<rparr>))" .
  then have c: "getResponse ?X 4 = Return [] (Quit ((session0 None [])\<lparr>evqueue := []\<rparr>))"
    by simp
  from a b b' c show ?thesis by (intro conjI)
qed

text \<open>
  A session that had to wait for the lock: the holder deletes the lock property, the
  program takes the lock and writes the command line, and Firefox sets the response
  property.  The wait for the response is the second wait of the process: it fails at
  once, and the session returns the empty string.
\<close>

lemma response_after_contention:
  "returned (submitCommand
       (session0 (Some ''held'')
          [[OtherDelete 4 lockProp], [OtherChange 4 respProp ''200 executed command'']])
       4 exampleCmd False)
     = Some []"
  by (simp add: xdefs waitForPropChange.simps lockFirefox.simps)

lemma returned_Some:
  "returned r = Some v \<Longrightarrow> \<exists>X'. r = Return v X'"
  by (cases r) (simp_all add: returned_def)

text \<open>
  Claim C7.  In force mode \<open>submitCommand\<close> sends exactly the requests that select
  the events, write the command line, delete the lock property and synchronise: it
  never grabs the server and never writes the lock property.  When it has returned,
  the lock property of the window is not set, whatever it was before.  The same holds
  when the process exits through \<open>log.Fatal\<close>; the session can also block in the wait
  for the response, before the release.
\<close>

theorem submitCommand_force:
  "(\<forall>resp X'. submitCommand X win cmd True = Return resp X' \<longrightarrow>
       GetProperty X' win lockProp = None
       \<and> reqs X' = reqs X @ [SelectInput win, ChangeProperty win cmdlProp cmd,
                              DeleteProperty win lockatom, SyncReq])
   \<and> (\<forall>m X'. submitCommand X win cmd True = Fatal m X' \<longrightarrow>
       GetProperty X' win lockProp = None
       \<and> (reqs X' = reqs X @ [SelectInput win]
          \<or> reqs X' = reqs X @ [SelectInput win, ChangeProperty win cmdlProp cmd,
                                 DeleteProperty win lockatom]))
   \<and> (\<forall>X'. submitCommand X win cmd True = Blocked X' \<longrightarrow>
       reqs X' = reqs X @ [SelectInput win, ChangeProperty win cmdlProp cmd])
   \<and> (\<forall>m. submitCommand X win cmd True \<noteq> Panic m)"
proof (cases "alive X win")
  case False
  then show ?thesis
    by (simp add: submitCommand_def Listen_def sent_def GetProperty_def)
next
  case True
  define X0 where "X0 = (sent (SelectInput win) X)\<lparr>selected := (selected X)(win := True)\<rparr>"
  have r0: "reqs X0 = reqs X @ [SelectInput win]"
    by (simp add: X0_def sent_def)
  have sub: "submitCommand X win cmd True = sendAndWait X0 win cmd"
    using True by (simp add: submitCommand_def Listen_def X0_def)
  obtain ok X1 where cp: "ChangeProp X0 win cmdlProp cmd = (ok, X1)"
    by (cases "ChangeProp X0 win cmdlProp cmd")
  have r1: "reqs X1 = reqs X @ [SelectInput win, ChangeProperty win cmdlProp cmd]"
    using reqs_ChangeProp [of X0 win cmdlProp cmd] cp r0 by simp
  show ?thesis
  proof (cases ok)
    case False
    with cp have "sendAndWait X0 win cmd = Fatal ''command line change:'' (unlockFirefox X1 win)"
      by (simp add: sendAndWait_def)
    with sub r1 show ?thesis
      by (simp add: GetProperty_unlockFirefox reqs_unlockFirefox)
  next
    case ok: True
    from getResponse_cases [of X1 win] show ?thesis
    proof (elim disjE exE conjE)
      fix resp X2
      assume g: "getResponse X1 win = Return resp X2" and r2: "reqs X2 = reqs X1"
      from cp ok g have "sendAndWait X0 win cmd = Return resp (Sync (unlockFirefox X2 win))"
        by (simp add: sendAndWait_def)
      with sub r1 r2 show ?thesis
        by (simp add: GetProperty_Sync GetProperty_unlockFirefox reqs_Sync reqs_unlockFirefox)
    next
      fix X2
      assume g: "getResponse X1 win = Blocked X2" and r2: "reqs X2 = reqs X1"
      from cp ok g have "sendAndWait X0 win cmd = Blocked X2"
        by (simp add: sendAndWait_def)
      with sub r1 r2 show ?thesis
        by simp
    qed
  qed
qed

text \<open>
  A forced session on a window whose lock property was left behind by somebody: the
  session returns Firefox's response, the lock property is gone, and the four
  requests are the only ones sent.
\<close>

theorem submitCommand_force_witness:
  "GetProperty (session0 (Some ''stale'') [[OtherChange 4 respProp ''200 executed command'']])
      4 lockProp = Some ''stale''
   \<and> (\<exists>X'. submitCommand
             (session0 (Some ''stale'') [[OtherChange 4 respProp ''200 executed command'']])
             4 exampleCmd True = Return ''200 executed command'' X'
          \<and> GetProperty X' 4 lockProp = None
          \<and> reqs X' = [SelectInput 4, ChangeProperty 4 cmdlProp exampleCmd,
                        DeleteProperty 4 lockatom, SyncReq])"
proof -
  let ?S = "session0 (Some ''stale'') [[OtherChange 4 respProp ''200 executed command'']]"
  have a: "GetProperty ?S 4 lockProp = Some ''stale''"
    by (simp add: xdefs)
  have "returned (submitCommand ?S 4 exampleCmd True) = Some ''200 executed command''"
    by (simp add: xdefs waitForPropChange.simps)
  then have "\<exists>X'. submitCommand ?S 4 exampleCmd True = Return ''200 executed command'' X'"
    by (rule returned_Some)
  then obtain X' where r: "submitCommand ?S 4 exampleCmd True = Return ''200 executed command'' X'"
    ..
  have e: "reqs ?S = []"
    by (simp add: session0_def desktop_def)
  note t = submitCommand_force [of ?S 4 exampleCmd, THEN conjunct1, rule_format, OF r]
  from t have l: "GetProperty X' 4 lockProp = None"
    by (rule conjunct1)
  from t have "reqs X' = reqs ?S @ [SelectInput 4, ChangeProperty 4 cmdlProp exampleCmd,
                      DeleteProperty 4 lockatom, SyncReq]"
    by (rule conjunct2)
  then have q: "reqs X' = [SelectInput 4, ChangeProperty 4 cmdlProp exampleCmd,
                      DeleteProperty 4 lockatom, SyncReq]"
    by (simp only: e append_Nil)
  from r l q have "\<exists>X'. submitCommand ?S 4 exampleCmd True = Return ''200 executed command'' X'
          \<and> GetProperty X' 4 lockProp = None
          \<and> reqs X' = [SelectInput 4, ChangeProperty 4 cmdlProp exampleCmd,
                        DeleteProperty 4 lockatom, SyncReq]"
    by (intro exI conjI)
  with a show ?thesis by (intro conjI)
qed



section \<open>Facts about the lock\<close>

lemma tryLock_free:
  assumes "GetProperty X win lockProp = None \<or> GetProperty X win lockProp = Some []"
      and "alive X win" and "\<not> rejects X win lockProp"
  shows "tryLock X win
         = (True, Sync (Ungrab (setProp win lockProp lockValue
                    (sent (ChangeProperty win lockProp lockValue)
                       (sent (GetPropertyReq win lockProp) (Grab X))))))"
  using assms
  by (auto simp: tryLock_def Let_def GetProperty_def GetPropertyRecorded_def Grab_def
      ChangeProp_def sent_def)

lemma tryLock_refused:
  assumes "GetProperty X win lockProp = None \<or> GetProperty X win lockProp = Some []"
      and "\<not> (alive X win \<and> \<not> rejects X win lockProp)"
  shows "tryLock X win
         = (False, Sync (Ungrab (sent (ChangeProperty win lockProp lockValue)
                    (sent (GetPropertyReq win lockProp) (Grab X)))))"
  using assms
  by (auto simp: tryLock_def Let_def GetProperty_def GetPropertyRecorded_def Grab_def
      ChangeProp_def sent_def)


lemma tryLock_True:
  "tryLock X win = (True, X1) \<Longrightarrow> GetProperty X1 win lockProp = Some lockValue"
  by (auto simp: tryLock_def Let_def GetProperty_def GetPropertyRecorded_def Grab_def
           Ungrab_def Sync_def ChangeProp_def sent_def setProp_def deliver_def
           split: option.splits if_splits)

text \<open>The requests of an attempt: nothing but the grab, the read and the write of the
  lock property, the release of the grab and the synchronisation.\<close>

lemma tryLock_reqs:
  "tryLock X win = (res, X1) \<Longrightarrow>
     \<exists>rs. reqs X1 = reqs X @ rs
        \<and> set rs \<subseteq> {GrabServer, UngrabServer, SyncReq, GetPropertyReq win lockProp,
                      ChangeProperty win lockProp lockValue}"
  by (auto simp: tryLock_def Let_def GetPropertyRecorded_def Grab_def
           Ungrab_def Sync_def ChangeProp_def sent_def setProp_def deliver_def
           split: option.splits if_splits)

lemma lockFirefox_success:
  "tryLock X win = (True, X1) \<Longrightarrow> lockFirefox X win = Return () X1"
  by (simp add: lockFirefox.simps [of X])

lemma lockFirefox_retry:
  "tryLock X win = (False, X1) \<Longrightarrow>
   lockFirefox X win =
     (case waitForPropChange X1 win lockatom of
        Return r X2 \<Rightarrow>
          if snd r then lockFirefox X2 win else Fatal ''Firefox window disappeared'' X2
      | Fatal m Y \<Rightarrow> Fatal m Y
      | Panic m \<Rightarrow> Panic m
      | Blocked Y \<Rightarrow> Blocked Y)"
  by (simp add: lockFirefox.simps [of X] split: result.splits)

lemma lockFirefox_outcomes:
  "(\<forall>X'. lockFirefox X win = Return () X' \<longrightarrow> GetProperty X' win lockProp = Some lockValue)
   \<and> (\<forall>m X'. lockFirefox X win = Fatal m X' \<longrightarrow> m = ''Firefox window disappeared'')
   \<and> (\<forall>m. lockFirefox X win \<noteq> Panic m)"
proof (induction X win rule: lockFirefox.induct)
  case (1 X win)
  obtain res X1 where t: "tryLock X win = (res, X1)"
    by (cases "tryLock X win")
  show ?case
  proof (cases res)
    case True
    with t tryLock_True [of X win X1] show ?thesis
      by (simp add: lockFirefox_success)
  next
    case False
    from t False have t': "tryLock X win = (False, X1)" by simp
    note r = lockFirefox_retry [OF t']
    from wait_cases [of X1 win lockatom] show ?thesis
    proof (elim disjE exE conjE)
      fix e X2
      assume w: "waitForPropChange X1 win lockatom = Return (Some e, True) X2"
      have "\<not> \<not> snd (Some e, True)" by simp
      from "1.IH" [OF t [symmetric] refl _ w this] False
      have "(\<forall>X'. lockFirefox X2 win = Return () X' \<longrightarrow> GetProperty X' win lockProp = Some lockValue)
          \<and> (\<forall>m X'. lockFirefox X2 win = Fatal m X' \<longrightarrow> m = ''Firefox window disappeared'')
          \<and> (\<forall>m. lockFirefox X2 win \<noteq> Panic m)"
        by simp
      then show ?thesis
        unfolding r w by simp
    next
      fix X2
      assume w: "waitForPropChange X1 win lockatom = Return (None, False) X2"
      show ?thesis
        unfolding r w by simp
    next
      fix X2
      assume w: "waitForPropChange X1 win lockatom = Blocked X2"
      show ?thesis
        unfolding r w by simp
    qed
  qed
qed

lemma lockFirefox_reqs:
  "lockFirefox X win = Return () Y \<or> lockFirefox X win = Fatal m Y \<or> lockFirefox X win = Blocked Y
   \<Longrightarrow> \<exists>rs. reqs Y = reqs X @ rs
          \<and> set rs \<subseteq> {GrabServer, UngrabServer, SyncReq, GetPropertyReq win lockProp,
                        ChangeProperty win lockProp lockValue}"
proof (induction X win arbitrary: Y rule: lockFirefox.induct)
  case (1 X win)
  let ?L = "{GrabServer, UngrabServer, SyncReq, GetPropertyReq win lockProp,
             ChangeProperty win lockProp lockValue}"
  obtain res X1 where t: "tryLock X win = (res, X1)"
    by (cases "tryLock X win")
  from tryLock_reqs [OF t] obtain rs1 where r1: "reqs X1 = reqs X @ rs1" "set rs1 \<subseteq> ?L"
    by blast
  show ?case
  proof (cases res)
    case True
    with t "1.prems" have "Y = X1"
      by (simp add: lockFirefox_success)
    with r1 show ?thesis by auto
  next
    case False
    from t False have t': "tryLock X win = (False, X1)" by simp
    note r = lockFirefox_retry [OF t']
    from wait_cases [of X1 win lockatom] show ?thesis
    proof (elim disjE exE conjE)
      fix e X2
      assume w: "waitForPropChange X1 win lockatom = Return (Some e, True) X2"
        and q: "reqs X2 = reqs X1"
      have "\<not> \<not> snd (Some e, True)" by simp
      note IH = "1.IH" [OF t [symmetric] refl _ w this, of Y]
      from "1.prems" have "lockFirefox X2 win = Return () Y \<or> lockFirefox X2 win = Fatal m Y
          \<or> lockFirefox X2 win = Blocked Y"
        unfolding r w by simp
      with IH False obtain rs2 where "reqs Y = reqs X2 @ rs2" "set rs2 \<subseteq> ?L"
        by blast
      with q r1 have "reqs Y = reqs X @ (rs1 @ rs2) \<and> set (rs1 @ rs2) \<subseteq> ?L"
        by simp
      then show ?thesis by blast
    next
      fix X2
      assume w: "waitForPropChange X1 win lockatom = Return (None, False) X2"
        and q: "reqs X2 = reqs X1"
      from "1.prems" have "Y = X2"
        unfolding r w by simp
      with q r1 show ?thesis by auto
    next
      fix X2
      assume w: "waitForPropChange X1 win lockatom = Blocked X2"
        and q: "reqs X2 = reqs X1"
      from "1.prems" have "Y = X2"
        unfolding r w by simp
      with q r1 show ?thesis by auto
    qed
  qed
qed


section \<open>Claims about the lock\<close>




text \<open>
  What the statement above leaves out: a wait that starts with the quit flag set.  The
  lock is held by a client that sets it once more before it deletes it.  The first
  wait ends with the event of the new value, the second attempt finds the lock held,
  and the second wait fails at once: the program exits with the message that the
  window has disappeared, and the window is there.
\<close>

lemma lockFirefox_second_wait:
  "exitMessage (submitCommand
       (session0 (Some ''held'') [[OtherChange 4 lockProp ''held''], [OtherDelete 4 lockProp]])
       4 exampleCmd False)
     = Some ''Firefox window disappeared''
   \<and> requests (submitCommand
       (session0 (Some ''held'') [[OtherChange 4 lockProp ''held''], [OtherDelete 4 lockProp]])
       4 exampleCmd False)
     = [SelectInput 4,
        GrabServer, GetPropertyReq 4 lockProp, UngrabServer, SyncReq,
        GrabServer, GetPropertyReq 4 lockProp, UngrabServer, SyncReq]"
  by (simp add: xdefs exitMessage_def waitForPropChange.simps lockFirefox.simps)

text \<open>
  Claim C8 (as amended).
  \<^item> When the write of the command line fails, \<open>submitCommand\<close> sends the deletion of
    the lock property and then exits through \<open>log.Fatal\<close>: the command line is
    written once and the lock property is not set at the exit.
  \<^item> When the lock is free and the write of the lock property fails, \<open>tryLock\<close>
    reports that the lock was not taken; the requests of the attempt are the grab,
    the read, the refused write, the release of the grab and the synchronisation,
    with no deletion; and \<open>lockFirefox\<close> goes on as it does when the lock is held,
    with the wait for an event on the lock property.
  \<^item> Whatever happens, \<open>lockFirefox\<close> sends no deletion of the lock property, and its
    only fatal exit carries the message that the window has disappeared: a failed
    write is not reported.
  \<^item> When \<open>lockFirefox\<close> exits or blocks, so does \<open>submitCommand\<close>, in the same state:
    nothing is sent after it.
\<close>

theorem write_failure:
  "(\<forall>X0 X1. Listen X win = (True, X0)
        \<and> (if force then Return () X0 else lockFirefox X0 win) = Return () X1
        \<and> \<not> fst (ChangeProp X1 win cmdlProp cmd) \<longrightarrow>
      (\<exists>X'. submitCommand X win cmd force = Fatal ''command line change:'' X'
           \<and> reqs X' = reqs X1 @ [ChangeProperty win cmdlProp cmd, DeleteProperty win lockatom]
           \<and> GetProperty X' win lockProp = None))
   \<and> ((GetProperty X win lockProp = None \<or> GetProperty X win lockProp = Some [])
        \<and> \<not> (alive X win \<and> \<not> rejects X win lockProp) \<longrightarrow>
      tryLock X win
        = (False, Sync (Ungrab (sent (ChangeProperty win lockProp lockValue)
                    (sent (GetPropertyReq win lockProp) (Grab X)))))
      \<and> reqs (Sync (Ungrab (sent (ChangeProperty win lockProp lockValue)
                    (sent (GetPropertyReq win lockProp) (Grab X)))))
        = reqs X @ [GrabServer, GetPropertyReq win lockProp,
                    ChangeProperty win lockProp lockValue, UngrabServer, SyncReq]
      \<and> lockFirefox X win
        = (case waitForPropChange
                  (Sync (Ungrab (sent (ChangeProperty win lockProp lockValue)
                    (sent (GetPropertyReq win lockProp) (Grab X)))))
                  win lockatom of
             Return r X2 \<Rightarrow>
               if snd r then lockFirefox X2 win
               else Fatal ''Firefox window disappeared'' X2
           | Fatal m Y \<Rightarrow> Fatal m Y
           | Panic m \<Rightarrow> Panic m
           | Blocked Y \<Rightarrow> Blocked Y))
   \<and> (\<forall>Y m. (lockFirefox X win = Return () Y \<or> lockFirefox X win = Fatal m Y
          \<or> lockFirefox X win = Blocked Y) \<longrightarrow>
        (\<exists>rs. reqs Y = reqs X @ rs \<and> DeleteProperty win lockatom \<notin> set rs))
   \<and> (\<forall>m Y. lockFirefox X win = Fatal m Y \<longrightarrow> m = ''Firefox window disappeared'')
   \<and> (\<forall>X0 m Y. Listen X win = (True, X0) \<and> lockFirefox X0 win = Fatal m Y \<longrightarrow>
        submitCommand X win cmd False = Fatal m Y)
   \<and> (\<forall>X0 Y. Listen X win = (True, X0) \<and> lockFirefox X0 win = Blocked Y \<longrightarrow>
        submitCommand X win cmd False = Blocked Y)"
proof -
  have a: "\<forall>X0 X1. Listen X win = (True, X0)
        \<and> (if force then Return () X0 else lockFirefox X0 win) = Return () X1
        \<and> \<not> fst (ChangeProp X1 win cmdlProp cmd) \<longrightarrow>
      (\<exists>X'. submitCommand X win cmd force = Fatal ''command line change:'' X'
           \<and> reqs X' = reqs X1 @ [ChangeProperty win cmdlProp cmd, DeleteProperty win lockatom]
           \<and> GetProperty X' win lockProp = None)"
  proof (intro allI impI)
    fix X0 X1
    assume h: "Listen X win = (True, X0)
        \<and> (if force then Return () X0 else lockFirefox X0 win) = Return () X1
        \<and> \<not> fst (ChangeProp X1 win cmdlProp cmd)"
    obtain ok X2 where cp: "ChangeProp X1 win cmdlProp cmd = (ok, X2)"
      by (cases "ChangeProp X1 win cmdlProp cmd")
    with h have ok: "\<not> ok" by simp
    have r2: "reqs X2 = reqs X1 @ [ChangeProperty win cmdlProp cmd]"
      using reqs_ChangeProp [of X1 win cmdlProp cmd] cp by simp
    from cp ok
    have s: "sendAndWait X1 win cmd = Fatal ''command line change:'' (unlockFirefox X2 win)"
      by (simp add: sendAndWait_def)
    have "submitCommand X win cmd force = sendAndWait X1 win cmd"
    proof (cases force)
      case True
      with h show ?thesis by (simp add: submitCommand_def)
    next
      case False
      with h show ?thesis by (simp add: submitCommand_def)
    qed
    with s
    have "submitCommand X win cmd force = Fatal ''command line change:'' (unlockFirefox X2 win)"
      by simp
    moreover have "reqs (unlockFirefox X2 win)
        = reqs X1 @ [ChangeProperty win cmdlProp cmd, DeleteProperty win lockatom]"
      by (simp add: reqs_unlockFirefox r2)
    moreover have "GetProperty (unlockFirefox X2 win) win lockProp = None"
      by (rule GetProperty_unlockFirefox)
    ultimately show "\<exists>X'. submitCommand X win cmd force = Fatal ''command line change:'' X'
           \<and> reqs X' = reqs X1 @ [ChangeProperty win cmdlProp cmd, DeleteProperty win lockatom]
           \<and> GetProperty X' win lockProp = None"
      by (intro exI conjI)
  qed
  have b: "(GetProperty X win lockProp = None \<or> GetProperty X win lockProp = Some [])
        \<and> \<not> (alive X win \<and> \<not> rejects X win lockProp) \<longrightarrow>
      tryLock X win
        = (False, Sync (Ungrab (sent (ChangeProperty win lockProp lockValue)
                    (sent (GetPropertyReq win lockProp) (Grab X)))))
      \<and> reqs (Sync (Ungrab (sent (ChangeProperty win lockProp lockValue)
                    (sent (GetPropertyReq win lockProp) (Grab X)))))
        = reqs X @ [GrabServer, GetPropertyReq win lockProp,
                    ChangeProperty win lockProp lockValue, UngrabServer, SyncReq]
      \<and> lockFirefox X win
        = (case waitForPropChange
                  (Sync (Ungrab (sent (ChangeProperty win lockProp lockValue)
                    (sent (GetPropertyReq win lockProp) (Grab X)))))
                  win lockatom of
             Return r X2 \<Rightarrow>
               if snd r then lockFirefox X2 win
               else Fatal ''Firefox window disappeared'' X2
           | Fatal m Y \<Rightarrow> Fatal m Y
           | Panic m \<Rightarrow> Panic m
           | Blocked Y \<Rightarrow> Blocked Y)"
  proof (intro impI)
    assume h: "(GetProperty X win lockProp = None \<or> GetProperty X win lockProp = Some [])
        \<and> \<not> (alive X win \<and> \<not> rejects X win lockProp)"
    then have t: "tryLock X win
        = (False, Sync (Ungrab (sent (ChangeProperty win lockProp lockValue)
                    (sent (GetPropertyReq win lockProp) (Grab X)))))"
      by (intro tryLock_refused) simp_all
    have q: "reqs (Sync (Ungrab (sent (ChangeProperty win lockProp lockValue)
                    (sent (GetPropertyReq win lockProp) (Grab X)))))
        = reqs X @ [GrabServer, GetPropertyReq win lockProp,
                    ChangeProperty win lockProp lockValue, UngrabServer, SyncReq]"
      by (simp add: Sync_def Ungrab_def Grab_def sent_def)
    have l: "lockFirefox X win
        = (case waitForPropChange
                  (Sync (Ungrab (sent (ChangeProperty win lockProp lockValue)
                    (sent (GetPropertyReq win lockProp) (Grab X)))))
                  win lockatom of
             Return r X2 \<Rightarrow>
               if snd r then lockFirefox X2 win
               else Fatal ''Firefox window disappeared'' X2
           | Fatal m Y \<Rightarrow> Fatal m Y
           | Panic m \<Rightarrow> Panic m
           | Blocked Y \<Rightarrow> Blocked Y)"
      by (rule lockFirefox_retry [OF t])
    from t q l show "tryLock X win
        = (False, Sync (Ungrab (sent (ChangeProperty win lockProp lockValue)
                    (sent (GetPropertyReq win lockProp) (Grab X)))))
      \<and> reqs (Sync (Ungrab (sent (ChangeProperty win lockProp lockValue)
                    (sent (GetPropertyReq win lockProp) (Grab X)))))
        = reqs X @ [GrabServer, GetPropertyReq win lockProp,
                    ChangeProperty win lockProp lockValue, UngrabServer, SyncReq]
      \<and> lockFirefox X win
        = (case waitForPropChange
                  (Sync (Ungrab (sent (ChangeProperty win lockProp lockValue)
                    (sent (GetPropertyReq win lockProp) (Grab X)))))
                  win lockatom of
             Return r X2 \<Rightarrow>
               if snd r then lockFirefox X2 win
               else Fatal ''Firefox window disappeared'' X2
           | Fatal m Y \<Rightarrow> Fatal m Y
           | Panic m \<Rightarrow> Panic m
           | Blocked Y \<Rightarrow> Blocked Y)"
      by (intro conjI)
  qed
  have c: "\<forall>Y m. (lockFirefox X win = Return () Y \<or> lockFirefox X win = Fatal m Y
          \<or> lockFirefox X win = Blocked Y) \<longrightarrow>
        (\<exists>rs. reqs Y = reqs X @ rs \<and> DeleteProperty win lockatom \<notin> set rs)"
  proof (intro allI impI)
    fix Y m
    assume "lockFirefox X win = Return () Y \<or> lockFirefox X win = Fatal m Y
          \<or> lockFirefox X win = Blocked Y"
    from lockFirefox_reqs [OF this] obtain rs where r: "reqs Y = reqs X @ rs"
      and s: "set rs \<subseteq> {GrabServer, UngrabServer, SyncReq, GetPropertyReq win lockProp,
                        ChangeProperty win lockProp lockValue}"
      by (elim exE conjE)
    from s have "DeleteProperty win lockatom \<notin> set rs"
      by auto
    with r show "\<exists>rs. reqs Y = reqs X @ rs \<and> DeleteProperty win lockatom \<notin> set rs"
      by (intro exI conjI)
  qed
  have d: "\<forall>m Y. lockFirefox X win = Fatal m Y \<longrightarrow> m = ''Firefox window disappeared''"
    using lockFirefox_outcomes [of X win] by (rule conjunct2 [THEN conjunct1])
  have e: "\<forall>X0 m Y. Listen X win = (True, X0) \<and> lockFirefox X0 win = Fatal m Y \<longrightarrow>
        submitCommand X win cmd False = Fatal m Y"
    by (simp add: submitCommand_def)
  have f: "\<forall>X0 Y. Listen X win = (True, X0) \<and> lockFirefox X0 win = Blocked Y \<longrightarrow>
        submitCommand X win cmd False = Blocked Y"
    by (simp add: submitCommand_def)
  from a b c d e f show ?thesis by (intro conjI)
qed

text \<open>
  A session on a server that refuses the write of the command line: the program takes
  the lock, the write fails, the program deletes the lock property and exits.
\<close>

theorem write_failure_witness:
  "\<exists>X'. submitCommand (refusing cmdlProp (session0 None [])) 4 exampleCmd False
          = Fatal ''command line change:'' X'
      \<and> reqs X' = [SelectInput 4, GrabServer, GetPropertyReq 4 lockProp,
                    ChangeProperty 4 lockProp lockValue, UngrabServer, SyncReq,
                    ChangeProperty 4 cmdlProp exampleCmd, DeleteProperty 4 lockatom]
      \<and> GetProperty X' 4 lockProp = None"
proof -
  let ?R = "refusing cmdlProp (session0 None [])"
  let ?X0 = "(sent (SelectInput 4) ?R)\<lparr>selected := (selected ?R)(4 := True)\<rparr>"
  let ?X1 = "Sync (Ungrab (setProp 4 lockProp lockValue
                 (sent (ChangeProperty 4 lockProp lockValue)
                    (sent (GetPropertyReq 4 lockProp) (Grab ?X0)))))"
  have l: "Listen ?R 4 = (True, ?X0)"
    by (simp add: Listen_def session0_def desktop_def refusing_def)
  have "tryLock ?X0 4 = (True, ?X1)"
    by (rule tryLock_free) (simp_all add: xdefs)
  then have k: "lockFirefox ?X0 4 = Return () ?X1"
    by (rule lockFirefox_success)
  have c: "\<not> fst (ChangeProp ?X1 4 cmdlProp exampleCmd)"
    by (simp add: xdefs)
  have q: "reqs ?X1 = [SelectInput 4, GrabServer, GetPropertyReq 4 lockProp,
                       ChangeProperty 4 lockProp lockValue, UngrabServer, SyncReq]"
    by (simp add: xdefs)
  from l k c have "Listen ?R 4 = (True, ?X0)
        \<and> (if False then Return () ?X0 else lockFirefox ?X0 4) = Return () ?X1
        \<and> \<not> fst (ChangeProp ?X1 4 cmdlProp exampleCmd)"
    by simp
  from write_failure [of ?R 4 False exampleCmd, THEN conjunct1, rule_format, OF this]
  show ?thesis
    unfolding q by simp
qed

text \<open>
  Claim C8 as stated covers the write of the lock property too.  On a server that
  refuses that write the session neither deletes the lock property nor exits: after
  the failed write it blocks in the wait for an event on the lock property.  The
  requests sent hold the refused write of the lock property and no deletion.
\<close>

theorem lock_write_failure_counterexample:
  "rejects (refusing lockProp (session0 None [])) 4 lockProp
   \<and> isBlocked (submitCommand
       (refusing lockProp (session0 None [])) 4 exampleCmd False)
   \<and> requests (submitCommand
       (refusing lockProp (session0 None [])) 4 exampleCmd False)
     = [SelectInput 4,
        GrabServer, GetPropertyReq 4 lockProp, ChangeProperty 4 lockProp lockValue,
        UngrabServer, SyncReq]"
  by (simp add: xdefs waitForPropChange.simps lockFirefox.simps)

text \<open>
  The same server when another client then sets the lock property to the empty
  value: the program tries the refused write a second time, and the wait that
  follows starts with the quit flag set and fails at once.  The program exits with
  the message that the window has disappeared; it has sent no deletion.
\<close>

lemma lock_write_retried:
  "exitMessage (submitCommand
       (refusing lockProp (session0 None [[OtherChange 4 lockProp []]]))
       4 exampleCmd False)
     = Some ''Firefox window disappeared''
   \<and> requests (submitCommand
       (refusing lockProp (session0 None [[OtherChange 4 lockProp []]]))
       4 exampleCmd False)
     = [SelectInput 4,
        GrabServer, GetPropertyReq 4 lockProp, ChangeProperty 4 lockProp lockValue,
        UngrabServer, SyncReq,
        GrabServer, GetPropertyReq 4 lockProp, ChangeProperty 4 lockProp lockValue,
        UngrabServer, SyncReq]"
  by (simp add: xdefs exitMessage_def waitForPropChange.simps lockFirefox.simps)


end
